theory Spec2Isabelle
  imports Complex_Main "HOL-Library.Multiset"
begin

section \<open>Configuration and input series\<close>

text \<open>
  The optimisers of \<^verbatim>\<open>simplified_optimization.py\<close> (class \<^verbatim>\<open>SimplifiedOptimizer\<close>) and
  \<^verbatim>\<open>gurobi_energy_optimization.py\<close> (class \<^verbatim>\<open>GurobiEnergyOptimizer\<close>) share one constructor
  and one \<^verbatim>\<open>load_data\<close>. Python floats are embedded as reals: the arithmetic of the code is
  read exactly, without rounding. Divisions are written as in the code; where a divisor of
  the code can be zero (\<^verbatim>\<open>dt * eta_c\<close>, \<^verbatim>\<open>eta_d\<close>, \<^verbatim>\<open>dt\<close>) the theorems below assume it is not,
  since HOL's \<open>x / 0 = 0\<close> is not what Python does there.
\<close>

record optimizer =
  lgc_price :: real
  poa_to_power_ratio :: real
  P_charge_max :: real
  P_discharge_max :: real
  E_capacity :: real
  eta_c :: real
  eta_d :: real
  ramp_rate :: real
  initial_soc :: real
  dt :: real
  max_ramp :: real

text \<open>\<^verbatim>\<open>__init__\<close>: the incentive is converted from AUD/MWh to AUD/kWh, the period is five
  minutes in hours, and the ramp limit per period is the per-second rate times 300.\<close>

definition optimizer_init ::
  "real \<Rightarrow> real \<Rightarrow> real \<Rightarrow> real \<Rightarrow> real \<Rightarrow> real \<Rightarrow> real \<Rightarrow> real \<Rightarrow> real \<Rightarrow> optimizer" where
  "optimizer_init lgc ratio battery_max_charge battery_max_discharge battery_capacity
      charge_efficiency discharge_efficiency rr isoc =
     \<lparr> lgc_price = lgc / 1000,
       poa_to_power_ratio = ratio,
       P_charge_max = battery_max_charge,
       P_discharge_max = battery_max_discharge,
       E_capacity = battery_capacity,
       eta_c = charge_efficiency,
       eta_d = discharge_efficiency,
       ramp_rate = rr,
       initial_soc = isoc,
       dt = 5 / 60,
       max_ramp = rr * 300 \<rparr>"

text \<open>The default arguments of the constructor.\<close>

definition default_optimizer :: optimizer where
  "default_optimizer = optimizer_init 10 3.79 250 250 1000 0.95 0.95 16.67 0.5"

definition nonzero_divisors :: "optimizer \<Rightarrow> bool" where
  "nonzero_divisors cfg \<longleftrightarrow> dt cfg \<noteq> 0 \<and> eta_c cfg \<noteq> 0 \<and> eta_d cfg \<noteq> 0"

record period =
  poa :: real
  rrp :: real
  pv_power :: real

text \<open>\<^verbatim>\<open>self.data.iloc[:max_periods]\<close> under the guard \<^verbatim>\<open>if max_periods:\<close>: \<^verbatim>\<open>None\<close> and \<^verbatim>\<open>0\<close>
  keep every row, a positive bound keeps a prefix, a negative one drops rows from the end.\<close>

definition truncate_periods :: "int option \<Rightarrow> 'a list \<Rightarrow> 'a list" where
  "truncate_periods max_periods xs =
     (case max_periods of
        None \<Rightarrow> xs
      | Some k \<Rightarrow>
          if k = 0 then xs
          else if 0 < k then take (nat k) xs
          else take (nat (int (length xs) + k)) xs)"

text \<open>\<^verbatim>\<open>load_data\<close>: a row of the file is the pair (POA, RRP); the generation power is
  \<^verbatim>\<open>poa * poa_to_power_ratio / 1000\<close>. The code has no validation step and no failure branch
  of its own, so the model is a total function.\<close>

definition load_data :: "optimizer \<Rightarrow> (real \<times> real) list \<Rightarrow> int option \<Rightarrow> period list" where
  "load_data cfg rows max_periods =
     truncate_periods max_periods
       (map (\<lambda>(p, r). \<lparr> poa = p, rrp = r, pv_power = p * poa_to_power_ratio cfg / 1000 \<rparr>) rows)"

section \<open>The greedy scheduler\<close>

text \<open>\<^verbatim>\<open>Series.quantile(q)\<close> with pandas' default linear interpolation: position
  \<open>(n - 1) * q\<close> in the sorted values, interpolated between its two neighbours. On an empty
  series pandas gives NaN, which the loop never reads; the model gives 0.\<close>

definition quantile :: "real list \<Rightarrow> real \<Rightarrow> real" where
  "quantile xs q =
     (if xs = [] then 0
      else
        let s = sort xs;
            pos = real (length xs - 1) * q;
            lo = nat \<lfloor>pos\<rfloor>;
            frac = pos - real lo
        in if Suc lo < length s then s ! lo + frac * (s ! Suc lo - s ! lo) else s ! lo)"

definition min_export_price :: "optimizer \<Rightarrow> real" where
  "min_export_price cfg = - lgc_price cfg"

text \<open>The charging power that fills the battery within one period,
  \<^verbatim>\<open>(E_capacity - soc) / (dt * eta_c)\<close>.\<close>

definition headroom :: "optimizer \<Rightarrow> real \<Rightarrow> real" where
  "headroom cfg soc = (E_capacity cfg - soc) / (dt cfg * eta_c cfg)"

text \<open>The decision logic of one period (lines 115 to 173): the result is
  \<open>(P_charge, P_discharge, P_grid_import, P_grid_export)\<close> before the ramp limit.\<close>

definition decide ::
  "optimizer \<Rightarrow> real \<Rightarrow> real \<Rightarrow> real \<Rightarrow> real \<Rightarrow> real \<Rightarrow> real \<times> real \<times> real \<times> real" where
  "decide cfg rrp_25 rrp_75 soc pv r =
     (if r < 0 then
        (let imp = min (P_charge_max cfg) (headroom cfg soc);
             ch0 = imp;
             pv_to_battery =
               min pv (min (P_charge_max cfg - ch0) (headroom cfg soc - ch0));
             ch = (if ch0 < P_charge_max cfg then ch0 + pv_to_battery else ch0);
             pv_remaining = (if ch0 < P_charge_max cfg then pv - pv_to_battery else pv);
             ex = (if 0 < pv_remaining then pv_remaining else 0)
         in (ch, 0, imp, ex))
      else if r < rrp_25 then
        (if soc < 0.8 * E_capacity cfg then
           (let pv_to_battery = min pv (min (P_charge_max cfg) (headroom cfg soc));
                ch0 = pv_to_battery;
                pv_remaining = pv - pv_to_battery;
                grid_charge = min (P_charge_max cfg - ch0) (headroom cfg soc - ch0)
            in if r < rrp_25 * 0.5 \<and> soc < 0.3 * E_capacity cfg
               then (ch0 + grid_charge, 0, grid_charge, pv_remaining)
               else (ch0, 0, 0, pv_remaining))
         else (0, 0, 0, pv))
      else if rrp_75 < r then
        (if 0.1 * E_capacity cfg < soc \<and> min_export_price cfg < r then
           (let dis = min (P_discharge_max cfg) (soc * eta_d cfg / dt cfg)
            in (0, dis, 0, pv + dis))
         else (0, 0, 0, pv))
      else
        (if min_export_price cfg < r then (0, 0, 0, pv) else (0, 0, 0, 0)))"

text \<open>The ramp limit (lines 175 to 185): the export is clamped to within \<open>max_ramp\<close> of the
  previous export, and then reduced to the available power \<open>pv + P_discharge\<close>.\<close>

definition ramp_limited :: "optimizer \<Rightarrow> real \<Rightarrow> real \<Rightarrow> real \<Rightarrow> real \<Rightarrow> real" where
  "ramp_limited cfg prev_grid_export pv dis ex =
     (if max_ramp cfg < \<bar>ex - prev_grid_export\<bar> then
        (let ex1 = (if prev_grid_export < ex then prev_grid_export + max_ramp cfg
                    else max 0 (prev_grid_export - max_ramp cfg));
             available = pv + dis
         in if available < ex1 then available else ex1)
      else ex)"

text \<open>\<^verbatim>\<open>np.clip(x, lo, hi)\<close> is \<^verbatim>\<open>minimum(hi, maximum(x, lo))\<close>.\<close>

definition clip :: "real \<Rightarrow> real \<Rightarrow> real \<Rightarrow> real" where
  "clip x lo hi = min hi (max x lo)"

definition soc_update :: "optimizer \<Rightarrow> real \<Rightarrow> real \<Rightarrow> real \<Rightarrow> real" where
  "soc_update cfg soc ch dis =
     clip (soc + ch * dt cfg * eta_c cfg - dis * dt cfg / eta_d cfg) 0 (E_capacity cfg)"

record result = period +
  P_charge :: real
  P_discharge :: real
  P_grid_import :: real
  P_grid_export :: real
  SOC :: real

text \<open>One iteration of the loop of \<^verbatim>\<open>optimize_greedy\<close>: the row written for the period. The
  running state is the pair of \<open>soc\<close> and \<open>prev_grid_export\<close>; after the iteration it is the
  pair \<open>(SOC row, P_grid_export row)\<close>.\<close>

definition greedy_step :: "optimizer \<Rightarrow> real \<Rightarrow> real \<Rightarrow> real \<Rightarrow> real \<Rightarrow> period \<Rightarrow> result" where
  "greedy_step cfg rrp_25 rrp_75 soc prev_grid_export p =
     (case decide cfg rrp_25 rrp_75 soc (pv_power p) (rrp p) of
        (ch, dis, imp, ex) \<Rightarrow>
          period.extend p
            \<lparr> P_charge = ch,
              P_discharge = dis,
              P_grid_import = imp,
              P_grid_export = ramp_limited cfg prev_grid_export (pv_power p) dis ex,
              SOC = soc_update cfg soc ch dis \<rparr>)"

fun greedy_loop ::
  "optimizer \<Rightarrow> real \<Rightarrow> real \<Rightarrow> real \<Rightarrow> real \<Rightarrow> period list \<Rightarrow> result list" where
  "greedy_loop cfg rrp_25 rrp_75 soc prev_grid_export [] = []"
| "greedy_loop cfg rrp_25 rrp_75 soc prev_grid_export (p # ps) =
     (let row = greedy_step cfg rrp_25 rrp_75 soc prev_grid_export p
      in row # greedy_loop cfg rrp_25 rrp_75 (SOC row) (P_grid_export row) ps)"

definition optimize_greedy :: "optimizer \<Rightarrow> period list \<Rightarrow> result list" where
  "optimize_greedy cfg data =
     greedy_loop cfg (quantile (map rrp data) 0.25) (quantile (map rrp data) 0.75)
       (initial_soc cfg * E_capacity cfg) 0 data"

section \<open>Revenue\<close>

record revenue =
  export_revenue :: real
  import_cost :: real
  lgc_revenue :: real
  net_revenue :: real
  battery_charge_energy :: real
  battery_discharge_energy :: real

text \<open>\<^verbatim>\<open>SimplifiedOptimizer._calculate_revenue\<close>: the revenue columns of one row. The same
  formulas are the second half of \<^verbatim>\<open>GurobiEnergyOptimizer.extract_results\<close>.\<close>

definition calculate_revenue_row :: "optimizer \<Rightarrow> result \<Rightarrow> revenue" where
  "calculate_revenue_row cfg r =
     (let er = P_grid_export r * dt cfg * rrp r;
          ic = P_grid_import r * dt cfg * rrp r;
          lr = pv_power r * dt cfg * lgc_price cfg
      in \<lparr> export_revenue = er,
           import_cost = ic,
           lgc_revenue = lr,
           net_revenue = er - ic + lr,
           battery_charge_energy = P_charge r * dt cfg,
           battery_discharge_energy = P_discharge r * dt cfg \<rparr>)"

definition calculate_revenue :: "optimizer \<Rightarrow> result list \<Rightarrow> revenue list" where
  "calculate_revenue cfg rs = map (calculate_revenue_row cfg) rs"

text \<open>\<^verbatim>\<open>print_summary\<close>: \<^verbatim>\<open>total_revenue = r['net_revenue'].sum()\<close>.\<close>

definition total_net_revenue :: "revenue list \<Rightarrow> real" where
  "total_net_revenue rs = sum_list (map net_revenue rs)"

text \<open>\<^verbatim>\<open>DaytimeStorageOptimizer\<close> (\<^verbatim>\<open>daytime_storage_optimization.py\<close>) keeps one more decision
  column, the curtailed power, and its \<^verbatim>\<open>_calculate_revenue\<close> reads it.\<close>

record daytime_result = result +
  P_pv_curtail :: real

record daytime_revenue = revenue +
  pv_curtail_energy :: real

definition daytime_calculate_revenue_row :: "optimizer \<Rightarrow> daytime_result \<Rightarrow> daytime_revenue" where
  "daytime_calculate_revenue_row cfg r =
     (let er = P_grid_export r * dt cfg * rrp r;
          ic = P_grid_import r * dt cfg * rrp r;
          lr = (P_grid_export r + P_pv_curtail r) * dt cfg * lgc_price cfg
      in \<lparr> export_revenue = er,
           import_cost = ic,
           lgc_revenue = lr,
           net_revenue = er - ic + lr,
           battery_charge_energy = P_charge r * dt cfg,
           battery_discharge_energy = P_discharge r * dt cfg,
           pv_curtail_energy = P_pv_curtail r * dt cfg \<rparr>)"

definition daytime_calculate_revenue :: "optimizer \<Rightarrow> daytime_result list \<Rightarrow> daytime_revenue list" where
  "daytime_calculate_revenue cfg rs = map (daytime_calculate_revenue_row cfg) rs"

section \<open>The mixed-integer program\<close>

text \<open>
  \<^verbatim>\<open>GurobiEnergyOptimizer.build_and_solve\<close> hands a model to the solver; the solver is not part
  of the repository. A schedule it returns is an assignment of the model's variables that
  satisfies the variable bounds and every constraint added by the code. The assignment is
  the record below (the \<^verbatim>\<open>.X\<close> attributes), and each group of constraints is one predicate,
  named as the code names it.
\<close>

record solution =
  P_charge_X :: "real list"
  P_discharge_X :: "real list"
  P_grid_import_X :: "real list"
  P_grid_export_X :: "real list"
  SOC_X :: "real list"
  is_charging_X :: "int list"
  is_discharging_X :: "int list"

text \<open>\<^verbatim>\<open>addVars\<close>: the index ranges, the bounds and the binary type.\<close>

definition variable_bounds :: "optimizer \<Rightarrow> nat \<Rightarrow> solution \<Rightarrow> bool" where
  "variable_bounds cfg n x \<longleftrightarrow>
     length (P_charge_X x) = n \<and> length (P_discharge_X x) = n \<and>
     length (P_grid_import_X x) = n \<and> length (P_grid_export_X x) = n \<and>
     length (SOC_X x) = n + 1 \<and>
     length (is_charging_X x) = n \<and> length (is_discharging_X x) = n \<and>
     (\<forall>t<n. 0 \<le> P_charge_X x ! t \<and> P_charge_X x ! t \<le> P_charge_max cfg) \<and>
     (\<forall>t<n. 0 \<le> P_discharge_X x ! t \<and> P_discharge_X x ! t \<le> P_discharge_max cfg) \<and>
     (\<forall>t<n. 0 \<le> P_grid_import_X x ! t) \<and>
     (\<forall>t<n. 0 \<le> P_grid_export_X x ! t) \<and>
     (\<forall>t<n + 1. 0 \<le> SOC_X x ! t \<and> SOC_X x ! t \<le> E_capacity cfg) \<and>
     (\<forall>t<n. is_charging_X x ! t = 0 \<or> is_charging_X x ! t = 1) \<and>
     (\<forall>t<n. is_discharging_X x ! t = 0 \<or> is_discharging_X x ! t = 1)"

definition initial_soc_constr :: "optimizer \<Rightarrow> solution \<Rightarrow> bool" where
  "initial_soc_constr cfg x \<longleftrightarrow> SOC_X x ! 0 = initial_soc cfg * E_capacity cfg"

definition soc_balance :: "optimizer \<Rightarrow> nat \<Rightarrow> solution \<Rightarrow> bool" where
  "soc_balance cfg n x \<longleftrightarrow>
     (\<forall>t<n. SOC_X x ! (t + 1) =
        SOC_X x ! t + P_charge_X x ! t * dt cfg * eta_c cfg
          - P_discharge_X x ! t * dt cfg / eta_d cfg)"

definition power_balance :: "period list \<Rightarrow> solution \<Rightarrow> bool" where
  "power_balance data x \<longleftrightarrow>
     (\<forall>t<length data.
        pv_power (data ! t) + P_discharge_X x ! t + P_grid_import_X x ! t =
        P_charge_X x ! t + P_grid_export_X x ! t)"

definition big_M :: "optimizer \<Rightarrow> real" where
  "big_M cfg = max (P_charge_max cfg) (P_discharge_max cfg)"

definition no_simul_charge_discharge :: "optimizer \<Rightarrow> nat \<Rightarrow> solution \<Rightarrow> bool" where
  "no_simul_charge_discharge cfg n x \<longleftrightarrow>
     (\<forall>t<n. is_charging_X x ! t + is_discharging_X x ! t \<le> 1 \<and>
        P_charge_X x ! t \<le> big_M cfg * real_of_int (is_charging_X x ! t) \<and>
        P_discharge_X x ! t \<le> big_M cfg * real_of_int (is_discharging_X x ! t))"

definition ramp_constr :: "optimizer \<Rightarrow> nat \<Rightarrow> solution \<Rightarrow> bool" where
  "ramp_constr cfg n x \<longleftrightarrow>
     (\<forall>t<n. 1 \<le> t \<longrightarrow>
        P_grid_export_X x ! t - P_grid_export_X x ! (t - 1) \<le> max_ramp cfg \<and>
        P_grid_export_X x ! (t - 1) - P_grid_export_X x ! t \<le> max_ramp cfg)"

definition min_price_constr :: "optimizer \<Rightarrow> period list \<Rightarrow> solution \<Rightarrow> bool" where
  "min_price_constr cfg data x \<longleftrightarrow>
     (\<forall>t<length data. rrp (data ! t) < min_export_price cfg \<longrightarrow> P_grid_export_X x ! t = 0)"

text \<open>The model is built only when \<^verbatim>\<open>eta_d\<close> is not zero: the expression
  \<^verbatim>\<open>P_discharge[t] * self.dt / self.eta_d\<close> raises otherwise.\<close>

definition gurobi_feasible :: "optimizer \<Rightarrow> period list \<Rightarrow> solution \<Rightarrow> bool" where
  "gurobi_feasible cfg data x \<longleftrightarrow>
     eta_d cfg \<noteq> 0 \<and>
     variable_bounds cfg (length data) x \<and>
     initial_soc_constr cfg x \<and>
     soc_balance cfg (length data) x \<and>
     power_balance data x \<and>
     no_simul_charge_discharge cfg (length data) x \<and>
     ramp_constr cfg (length data) x \<and>
     min_price_constr cfg data x"

text \<open>The objective \<^verbatim>\<open>obj_expr\<close>, maximised.\<close>

definition objective :: "optimizer \<Rightarrow> period list \<Rightarrow> solution \<Rightarrow> real" where
  "objective cfg data x =
     (\<Sum>t\<leftarrow>[0..<length data].
        P_grid_export_X x ! t * dt cfg * rrp (data ! t)
        - P_grid_import_X x ! t * dt cfg * rrp (data ! t)
        + pv_power (data ! t) * dt cfg * lgc_price cfg)"

text \<open>Status \<^verbatim>\<open>GRB.OPTIMAL\<close>: the assignment returned is feasible, and the solver holds a bound
  that no feasible assignment exceeds and that lies within the relative gap \<^verbatim>\<open>MIPGap\<close> of the
  objective of the assignment. \<^verbatim>\<open>build_and_solve\<close> sets the gap from its argument \<^verbatim>\<open>mip_gap\<close>,
  0.01 by default.\<close>

definition gurobi_optimal :: "optimizer \<Rightarrow> period list \<Rightarrow> real \<Rightarrow> solution \<Rightarrow> bool" where
  "gurobi_optimal cfg data mip_gap x \<longleftrightarrow>
     gurobi_feasible cfg data x \<and>
     (\<exists>bound.
        (\<forall>y. gurobi_feasible cfg data y \<longrightarrow> objective cfg data y \<le> bound) \<and>
        bound - objective cfg data x \<le> mip_gap * \<bar>objective cfg data x\<bar>)"

text \<open>\<^verbatim>\<open>extract_results\<close>: the decision columns are read for \<^verbatim>\<open>t\<close> in \<^verbatim>\<open>range(n)\<close>, the
  state of charge included, and the revenue columns are computed from them.\<close>

definition extract_results :: "optimizer \<Rightarrow> period list \<Rightarrow> solution \<Rightarrow> result list" where
  "extract_results cfg data x =
     map (\<lambda>t. period.extend (data ! t)
                \<lparr> P_charge = P_charge_X x ! t,
                  P_discharge = P_discharge_X x ! t,
                  P_grid_import = P_grid_import_X x ! t,
                  P_grid_export = P_grid_export_X x ! t,
                  SOC = SOC_X x ! t \<rparr>)
       [0..<length data]"

definition extract_revenue :: "optimizer \<Rightarrow> period list \<Rightarrow> solution \<Rightarrow> revenue list" where
  "extract_revenue cfg data x =
     map (\<lambda>r. \<lparr> export_revenue = P_grid_export r * dt cfg * rrp r,
                import_cost = P_grid_import r * dt cfg * rrp r,
                lgc_revenue = pv_power r * dt cfg * lgc_price cfg,
                net_revenue = P_grid_export r * dt cfg * rrp r
                              - P_grid_import r * dt cfg * rrp r
                              + pv_power r * dt cfg * lgc_price cfg,
                battery_charge_energy = P_charge r * dt cfg,
                battery_discharge_energy = P_discharge r * dt cfg \<rparr>)
       (extract_results cfg data x)"

section \<open>The linear program\<close>

text \<open>
  \<^verbatim>\<open>linear_programming_optimization.py\<close> states the dispatch problem in energies per period
  (kWh) and hands it to CBC through PuLP. Its parameters are the attributes of the class
  \<^verbatim>\<open>OptimizationConfig\<close>; \<^verbatim>\<open>greedy_discharge_v2.py\<close> has a class of the same name with other
  values and two further attributes, so the common attributes are one record.
\<close>

record battery_config =
  NEL :: real
  NIL :: real
  BATTERY_MAX_CHARGE_POWER :: real
  BATTERY_MAX_DISCHARGE_POWER :: real
  BATTERY_CAPACITY :: real
  CHARGE_EFFICIENCY :: real
  DISCHARGE_EFFICIENCY :: real
  LGC :: real
  INTERVAL_MINUTES :: real
  INTERVAL_HOURS :: real

record lp_config = battery_config +
  PV_CAPACITY :: real
  POA_TO_POWER_RATIO :: real

definition lp_OptimizationConfig :: lp_config where
  "lp_OptimizationConfig =
     \<lparr> NEL = 3880, NIL = 670,
       BATTERY_MAX_CHARGE_POWER = 670, BATTERY_MAX_DISCHARGE_POWER = 2400,
       BATTERY_CAPACITY = 4000,
       CHARGE_EFFICIENCY = 0.95, DISCHARGE_EFFICIENCY = 0.95,
       LGC = - 10,
       INTERVAL_MINUTES = 5, INTERVAL_HOURS = 5 / 60,
       PV_CAPACITY = 1000, POA_TO_POWER_RATIO = 0.17 \<rparr>"

text \<open>The irradiance and generation columns are common to the data frames of both scripts; the
  price column has its own name in each.\<close>

record pv_row =
  POA :: real
  PV_Power_kW :: real
  PV_Energy_kWh :: real

record lp_period = pv_row +
  RRP :: real

text \<open>The two derived columns of \<^verbatim>\<open>df_filtered\<close>; a row of the file is the pair (POA, RRP).\<close>

definition lp_load :: "lp_config \<Rightarrow> (real \<times> real) list \<Rightarrow> lp_period list" where
  "lp_load cfg rows =
     map (\<lambda>(p, r).
            \<lparr> POA = p,
              PV_Power_kW = p * PV_CAPACITY cfg * POA_TO_POWER_RATIO cfg / 1000,
              PV_Energy_kWh =
                p * PV_CAPACITY cfg * POA_TO_POWER_RATIO cfg / 1000 * INTERVAL_HOURS cfg,
              RRP = r \<rparr>)
       rows"

text \<open>The decision variables, one list per family, indexed by the period (\<open>soc_var\<close> is the
  list \<^verbatim>\<open>soc\<close> of the script).\<close>

record lp_solution =
  charge_grid :: "real list"
  charge_pv :: "real list"
  discharge :: "real list"
  soc_var :: "real list"
  export_pv :: "real list"
  export_battery :: "real list"
  curtail :: "real list"

definition lp_variable_bounds :: "lp_config \<Rightarrow> lp_period list \<Rightarrow> lp_solution \<Rightarrow> bool" where
  "lp_variable_bounds cfg data x \<longleftrightarrow>
     length (charge_grid x) = length data \<and> length (charge_pv x) = length data \<and>
     length (discharge x) = length data \<and> length (soc_var x) = length data \<and>
     length (export_pv x) = length data \<and> length (export_battery x) = length data \<and>
     length (curtail x) = length data \<and>
     (\<forall>t<length data.
        0 \<le> charge_grid x ! t \<and> charge_grid x ! t \<le> NIL cfg * INTERVAL_HOURS cfg \<and>
        0 \<le> charge_pv x ! t \<and> charge_pv x ! t \<le> PV_Energy_kWh (data ! t) \<and>
        0 \<le> discharge x ! t \<and>
        discharge x ! t \<le> BATTERY_MAX_DISCHARGE_POWER cfg * INTERVAL_HOURS cfg \<and>
        0 \<le> soc_var x ! t \<and> soc_var x ! t \<le> BATTERY_CAPACITY cfg \<and>
        0 \<le> export_pv x ! t \<and> export_pv x ! t \<le> PV_Energy_kWh (data ! t) \<and>
        0 \<le> export_battery x ! t \<and>
        0 \<le> curtail x ! t \<and> curtail x ! t \<le> PV_Energy_kWh (data ! t))"

definition PV_Balance :: "lp_period list \<Rightarrow> lp_solution \<Rightarrow> bool" where
  "PV_Balance data x \<longleftrightarrow>
     (\<forall>t<length data.
        charge_pv x ! t + export_pv x ! t + curtail x ! t = PV_Energy_kWh (data ! t))"

text \<open>The recurrence of the state of charge; in period 0 the previous state is absent from
  the constraint, that is, the battery starts empty.\<close>

definition SOC_constr :: "lp_config \<Rightarrow> nat \<Rightarrow> lp_solution \<Rightarrow> bool" where
  "SOC_constr cfg n x \<longleftrightarrow>
     (\<forall>t<n.
        if t = 0 then
          soc_var x ! t = (charge_pv x ! t + charge_grid x ! t) * CHARGE_EFFICIENCY cfg
                      - discharge x ! t / DISCHARGE_EFFICIENCY cfg
        else
          soc_var x ! t = soc_var x ! (t - 1)
                      + (charge_pv x ! t + charge_grid x ! t) * CHARGE_EFFICIENCY cfg
                      - discharge x ! t / DISCHARGE_EFFICIENCY cfg)"

definition Battery_Export :: "lp_config \<Rightarrow> nat \<Rightarrow> lp_solution \<Rightarrow> bool" where
  "Battery_Export cfg n x \<longleftrightarrow>
     (\<forall>t<n. export_battery x ! t = discharge x ! t * DISCHARGE_EFFICIENCY cfg)"

definition NEL_Limit :: "lp_config \<Rightarrow> nat \<Rightarrow> lp_solution \<Rightarrow> bool" where
  "NEL_Limit cfg n x \<longleftrightarrow>
     (\<forall>t<n. (export_pv x ! t + export_battery x ! t) / INTERVAL_HOURS cfg \<le> NEL cfg)"

definition LGC_constr :: "lp_config \<Rightarrow> lp_period list \<Rightarrow> lp_solution \<Rightarrow> bool" where
  "LGC_constr cfg data x \<longleftrightarrow>
     (\<forall>t<length data.
        RRP (data ! t) \<le> LGC cfg \<longrightarrow> export_pv x ! t = 0 \<and> export_battery x ! t = 0)"

text \<open>The program is stated only when its divisors are not zero, and the script divides by
  the number of periods before it solves.\<close>

definition lp_feasible :: "lp_config \<Rightarrow> lp_period list \<Rightarrow> lp_solution \<Rightarrow> bool" where
  "lp_feasible cfg data x \<longleftrightarrow>
     data \<noteq> [] \<and> DISCHARGE_EFFICIENCY cfg \<noteq> 0 \<and> INTERVAL_HOURS cfg \<noteq> 0 \<and>
     lp_variable_bounds cfg data x \<and>
     PV_Balance data x \<and>
     SOC_constr cfg (length data) x \<and>
     Battery_Export cfg (length data) x \<and>
     NEL_Limit cfg (length data) x \<and>
     LGC_constr cfg data x"

text \<open>The objective \<^verbatim>\<open>lpSum(revenue_terms) - lpSum(cost_terms)\<close>, maximised.\<close>

definition Total_Revenue :: "lp_period list \<Rightarrow> lp_solution \<Rightarrow> real" where
  "Total_Revenue data x =
     (\<Sum>t\<leftarrow>[0..<length data]. (export_pv x ! t + export_battery x ! t) * RRP (data ! t) / 1000)
     - (\<Sum>t\<leftarrow>[0..<length data]. charge_grid x ! t * RRP (data ! t) / 1000)"

text \<open>Status \<^verbatim>\<open>Optimal\<close>; with any other status the script stops without a schedule.\<close>

definition lp_optimal :: "lp_config \<Rightarrow> lp_period list \<Rightarrow> lp_solution \<Rightarrow> bool" where
  "lp_optimal cfg data x \<longleftrightarrow>
     lp_feasible cfg data x \<and>
     (\<forall>y. lp_feasible cfg data y \<longrightarrow> Total_Revenue data y \<le> Total_Revenue data x)"

section \<open>The day-partitioned greedy scheduler\<close>

text \<open>
  \<^verbatim>\<open>greedy_discharge_v2.py\<close>: per day, charge in the cheapest periods with enough irradiance,
  then discharge in the dearest periods of the window between first light of this day and
  last light of the next. Energies are per period, in kWh.
\<close>

record v2_config = battery_config +
  POA_CHARGE_THRESHOLD :: real
  POA_DAYTIME_THRESHOLD :: real

definition v2_OptimizationConfig :: v2_config where
  "v2_OptimizationConfig =
     \<lparr> NEL = 4440, NIL = 670,
       BATTERY_MAX_CHARGE_POWER = 2752, BATTERY_MAX_DISCHARGE_POWER = 2752,
       BATTERY_CAPACITY = 5504,
       CHARGE_EFFICIENCY = 0.95, DISCHARGE_EFFICIENCY = 0.95,
       LGC = - 10,
       INTERVAL_MINUTES = 5, INTERVAL_HOURS = 5 / 60,
       POA_CHARGE_THRESHOLD = 10, POA_DAYTIME_THRESHOLD = 5 \<rparr>"

text \<open>A row of \<^verbatim>\<open>df\<close>: \<open>idx\<close> is its label in the index of the data frame (its position after
  \<^verbatim>\<open>reset_index\<close>).\<close>

record v2_row = pv_row +
  idx :: nat
  RRP_MWh :: real
  Can_Charge :: bool
  Is_Daytime :: bool

text \<open>A dictionary appended to \<^verbatim>\<open>day_results\<close>.\<close>

record v2_result =
  index_r :: nat
  Charge_PV_kWh :: real
  Charge_Grid_kWh :: real
  Discharge_kWh :: real
  Export_PV_kWh :: real
  Export_Battery_kWh :: real
  Curtail_kWh :: real
  SOC_kWh :: real
  Action :: string

text \<open>Generation that is neither stored nor used with the battery: exported up to the grid
  limit when the price is above the floor, curtailed otherwise. The result is
  \<open>(export_pv, curtail)\<close>.\<close>

definition pv_only :: "v2_config \<Rightarrow> real \<Rightarrow> real \<Rightarrow> real \<times> real" where
  "pv_only cfg price pv =
     (if LGC cfg < price then
        (let e = min pv (NEL cfg * INTERVAL_HOURS cfg) in (e, max 0 (pv - e)))
      else (0, pv))"

text \<open>Phase 1, one iteration after the test for a full battery (lines 83 to 127).\<close>

definition charge_step :: "v2_config \<Rightarrow> real \<Rightarrow> v2_row \<Rightarrow> v2_result \<times> real" where
  "charge_step cfg soc row =
     (let available_capacity = BATTERY_CAPACITY cfg - soc;
          max_charge_power = BATTERY_MAX_CHARGE_POWER cfg * INTERVAL_HOURS cfg;
          pv_available = PV_Energy_kWh row;
          charge_from_pv =
            min pv_available (min max_charge_power (available_capacity / CHARGE_EFFICIENCY cfg));
          remaining_power = max_charge_power - charge_from_pv;
          remaining_capacity = available_capacity - charge_from_pv * CHARGE_EFFICIENCY cfg;
          charge_from_grid =
            (if 0.01 < remaining_capacity \<and> 0.01 < remaining_power then
               min (NIL cfg * INTERVAL_HOURS cfg)
                 (min remaining_power (remaining_capacity / CHARGE_EFFICIENCY cfg))
             else 0);
          total_charge = charge_from_pv + charge_from_grid;
          soc1 = soc + total_charge * CHARGE_EFFICIENCY cfg;
          remaining_pv = pv_available - charge_from_pv
      in case pv_only cfg (RRP_MWh row) remaining_pv of
           (e, c) \<Rightarrow>
             (\<lparr> index_r = idx row,
                Charge_PV_kWh = charge_from_pv,
                Charge_Grid_kWh = charge_from_grid,
                Discharge_kWh = 0,
                Export_PV_kWh = e,
                Export_Battery_kWh = 0,
                Curtail_kWh = c,
                SOC_kWh = soc1,
                Action = ''Charging'' \<rparr>, soc1))"

text \<open>The loop of phase 1 stops at the first row met with a battery that is full to 99.9
  percent.\<close>

fun charge_loop :: "v2_config \<Rightarrow> real \<Rightarrow> v2_row list \<Rightarrow> v2_result list \<times> real" where
  "charge_loop cfg soc [] = ([], soc)"
| "charge_loop cfg soc (row # rows) =
     (if BATTERY_CAPACITY cfg * 0.999 \<le> soc then ([], soc)
      else
        (case charge_step cfg soc row of
           (r, soc1) \<Rightarrow>
             (case charge_loop cfg soc1 rows of (rs, soc2) \<Rightarrow> (r # rs, soc2))))"

text \<open>Phase 2, one iteration (lines 152 to 247).\<close>

definition discharge_step :: "v2_config \<Rightarrow> real \<Rightarrow> v2_row \<Rightarrow> v2_result \<times> real" where
  "discharge_step cfg soc row =
     (if soc \<le> 0.01 then
        (case pv_only cfg (RRP_MWh row) (PV_Energy_kWh row) of
           (e, c) \<Rightarrow>
             (\<lparr> index_r = idx row, Charge_PV_kWh = 0, Charge_Grid_kWh = 0, Discharge_kWh = 0,
                Export_PV_kWh = e, Export_Battery_kWh = 0, Curtail_kWh = c,
                SOC_kWh = 0, Action = ''Battery_Empty'' \<rparr>, soc))
      else if RRP_MWh row \<le> LGC cfg then
        (\<lparr> index_r = idx row, Charge_PV_kWh = 0, Charge_Grid_kWh = 0, Discharge_kWh = 0,
           Export_PV_kWh = 0, Export_Battery_kWh = 0, Curtail_kWh = PV_Energy_kWh row,
           SOC_kWh = soc, Action = ''Price_Too_Low'' \<rparr>, soc)
      else
        (let pv_power = PV_Power_kW row;
             available_energy = soc * DISCHARGE_EFFICIENCY cfg;
             (discharge_energy, e, c, action) =
               (if Is_Daytime row then
                  (if NEL cfg \<le> pv_power then
                     (0, NEL cfg * INTERVAL_HOURS cfg,
                      PV_Energy_kWh row - NEL cfg * INTERVAL_HOURS cfg, ''PV_Only'')
                   else
                     (let needed_power = NEL cfg - pv_power;
                          max_discharge_power = min (BATTERY_MAX_DISCHARGE_POWER cfg) needed_power;
                          max_discharge_energy = max_discharge_power * INTERVAL_HOURS cfg
                      in (min max_discharge_energy (available_energy / DISCHARGE_EFFICIENCY cfg),
                          pv_power * INTERVAL_HOURS cfg,
                          PV_Energy_kWh row - pv_power * INTERVAL_HOURS cfg,
                          ''PV_Battery_Mix'')))
                else
                  (let max_discharge_energy =
                         BATTERY_MAX_DISCHARGE_POWER cfg * INTERVAL_HOURS cfg
                   in (min max_discharge_energy (available_energy / DISCHARGE_EFFICIENCY cfg),
                       0, PV_Energy_kWh row, ''Battery_Only'')));
             soc1 = max 0 (soc - discharge_energy / DISCHARGE_EFFICIENCY cfg)
         in (\<lparr> index_r = idx row, Charge_PV_kWh = 0, Charge_Grid_kWh = 0,
               Discharge_kWh = discharge_energy,
               Export_PV_kWh = e,
               Export_Battery_kWh = discharge_energy * DISCHARGE_EFFICIENCY cfg,
               Curtail_kWh = c,
               SOC_kWh = soc1, Action = action \<rparr>, soc1)))"

fun discharge_loop :: "v2_config \<Rightarrow> real \<Rightarrow> v2_row list \<Rightarrow> v2_result list \<times> real" where
  "discharge_loop cfg soc [] = ([], soc)"
| "discharge_loop cfg soc (row # rows) =
     (case discharge_step cfg soc row of
        (r, soc1) \<Rightarrow>
          (case discharge_loop cfg soc1 rows of (rs, soc2) \<Rightarrow> (r # rs, soc2)))"

text \<open>The candidates of phase 2: the rows of this day between the first and the last row with
  daylight of this day and the next, the rows charged in phase 1 excluded.\<close>

definition discharge_candidates :: "v2_row list \<Rightarrow> v2_row list \<Rightarrow> nat list \<Rightarrow> v2_row list" where
  "discharge_candidates day_data next_day_data charged_indices =
     (let combined = day_data @ next_day_data;
          daytime = filter Is_Daytime combined
      in if daytime = [] then []
         else
           (let first_daytime_idx = idx (hd daytime);
                last_daytime_idx = idx (last daytime);
                discharge_window =
                  filter (\<lambda>r. first_daytime_idx \<le> idx r \<and> idx r \<le> last_daytime_idx) combined
            in filter (\<lambda>r. idx r \<in> set (map idx day_data) \<and> idx r \<notin> set charged_indices)
                 discharge_window))"

text \<open>Phase 3: a row of the day without a result so far.\<close>

definition idle_result :: "v2_config \<Rightarrow> real \<Rightarrow> v2_row \<Rightarrow> v2_result" where
  "idle_result cfg soc row =
     (case pv_only cfg (RRP_MWh row) (PV_Energy_kWh row) of
        (e, c) \<Rightarrow>
          \<lparr> index_r = idx row, Charge_PV_kWh = 0, Charge_Grid_kWh = 0, Discharge_kWh = 0,
            Export_PV_kWh = e, Export_Battery_kWh = 0, Curtail_kWh = c,
            SOC_kWh = soc, Action = ''PV_Only_Idle'' \<rparr>)"

text \<open>\<^verbatim>\<open>sort_values\<close> with the default algorithm of pandas (quicksort, which is not stable):
  the rows come back rearranged in ascending order of the key, and the order among rows of
  equal key is not determined by the call. A sort is any function with these two properties,
  the stable \<open>sort_key\<close> being one of them; the descending sort (\<^verbatim>\<open>ascending=False\<close>) is
  the ascending one on the negated key.\<close>

type_synonym sort_values = "(v2_row \<Rightarrow> real) \<Rightarrow> v2_row list \<Rightarrow> v2_row list"

definition sorts_by_key :: "sort_values \<Rightarrow> bool" where
  "sorts_by_key srt \<longleftrightarrow>
     (\<forall>key xs. mset (srt key xs) = mset xs \<and> sorted (map key (srt key xs)))"

text \<open>\<^verbatim>\<open>optimize_daily\<close>. The two sorts are \<^verbatim>\<open>sort_values\<close> by price, ascending for the
  charge and descending for the discharge; the sort used is a parameter of the model.\<close>

definition optimize_daily ::
  "sort_values \<Rightarrow> v2_config \<Rightarrow> v2_row list \<Rightarrow> v2_row list \<Rightarrow> real \<Rightarrow>
     v2_result list \<times> real" where
  "optimize_daily srt cfg day_data next_day_data soc_start =
     (let chargeable = filter Can_Charge day_data;
          (charged, soc1) =
            (if chargeable \<noteq> [] \<and> soc_start < BATTERY_CAPACITY cfg
             then charge_loop cfg soc_start (srt RRP_MWh chargeable)
             else ([], soc_start));
          charged_indices = map index_r charged;
          candidates = discharge_candidates day_data next_day_data charged_indices;
          (discharged, soc2) =
            (if candidates \<noteq> [] \<and> 0.01 < soc1
             then discharge_loop cfg soc1 (srt (\<lambda>r. - RRP_MWh r) candidates)
             else ([], soc1));
          day_results = charged @ discharged;
          processed_indices = map index_r day_results;
          idle = map (idle_result cfg soc2)
                   (filter (\<lambda>r. idx r \<notin> set processed_indices) day_data)
      in (day_results @ idle, soc2))"

text \<open>The loop over the days (lines 284 to 324): the results of a day are put back in the order
  of time; a row without a result would get the row marked \<^verbatim>\<open>Error\<close>, with the state of charge
  at the start of the day.\<close>

definition error_result :: "real \<Rightarrow> v2_row \<Rightarrow> v2_result" where
  "error_result soc row =
     \<lparr> index_r = idx row, Charge_PV_kWh = 0, Charge_Grid_kWh = 0, Discharge_kWh = 0,
       Export_PV_kWh = 0, Export_Battery_kWh = 0, Curtail_kWh = PV_Energy_kWh row,
       SOC_kWh = soc, Action = ''Error'' \<rparr>"

definition merge_day :: "v2_row list \<Rightarrow> v2_result list \<Rightarrow> real \<Rightarrow> v2_result list" where
  "merge_day day_data day_results soc =
     map (\<lambda>row. case find (\<lambda>r. index_r r = idx row) day_results of
                  Some r \<Rightarrow> r
                | None \<Rightarrow> error_result soc row)
       day_data"

fun run_days :: "sort_values \<Rightarrow> v2_config \<Rightarrow> real \<Rightarrow> v2_row list list \<Rightarrow> v2_result list" where
  "run_days srt cfg soc [] = []"
| "run_days srt cfg soc (day_data # days) =
     (case optimize_daily srt cfg day_data (case days of [] \<Rightarrow> [] | d # _ \<Rightarrow> d) soc of
        (day_results, soc_end) \<Rightarrow>
          merge_day day_data day_results soc @ run_days srt cfg soc_end days)"

text \<open>The run of the script starts with a battery half full.\<close>

definition run_v2 :: "sort_values \<Rightarrow> v2_config \<Rightarrow> v2_row list list \<Rightarrow> v2_result list" where
  "run_v2 srt cfg days = run_days srt cfg (BATTERY_CAPACITY cfg * 0.5) days"

text \<open>The flags of a row (lines 53 and 54), for a row given by its index, irradiance, price,
  generated energy and generation power.\<close>

definition v2_row_of :: "v2_config \<Rightarrow> nat \<Rightarrow> real \<Rightarrow> real \<Rightarrow> real \<Rightarrow> real \<Rightarrow> v2_row" where
  "v2_row_of cfg i p price kwh kw =
     \<lparr> POA = p, PV_Power_kW = kw, PV_Energy_kWh = kwh,
       idx = i, RRP_MWh = price,
       Can_Charge = (POA_CHARGE_THRESHOLD cfg < p),
       Is_Daytime = (POA_DAYTIME_THRESHOLD cfg < p) \<rparr>"

text \<open>Parameters under which the arithmetic of the scheduler means what it says: positive
  efficiencies, and a capacity, power limits and a period length that are not negative.\<close>

definition sane_config :: "v2_config \<Rightarrow> bool" where
  "sane_config cfg \<longleftrightarrow>
     0 < CHARGE_EFFICIENCY cfg \<and> 0 < DISCHARGE_EFFICIENCY cfg \<and> 0 \<le> INTERVAL_HOURS cfg \<and>
     0 \<le> BATTERY_CAPACITY cfg \<and> 0 \<le> BATTERY_MAX_CHARGE_POWER cfg \<and>
     0 \<le> BATTERY_MAX_DISCHARGE_POWER cfg \<and> 0 \<le> NIL cfg"

section \<open>The greedy schedule as an assignment of the mixed-integer program\<close>

text \<open>The values of the running variable \<^verbatim>\<open>soc\<close> of \<^verbatim>\<open>optimize_greedy\<close>: its initial value, then
  the value stored in the \<^verbatim>\<open>SOC\<close> column at the end of each iteration.\<close>

definition soc_values :: "optimizer \<Rightarrow> period list \<Rightarrow> real list" where
  "soc_values cfg data = initial_soc cfg * E_capacity cfg # map SOC (optimize_greedy cfg data)"

text \<open>The columns of the greedy schedule read as values of the variables of the exact model:
  the four powers, the values of the running state of charge, and an indicator set where the
  power is positive.\<close>

definition greedy_as_solution :: "optimizer \<Rightarrow> period list \<Rightarrow> solution" where
  "greedy_as_solution cfg data =
     \<lparr> P_charge_X = map P_charge (optimize_greedy cfg data),
       P_discharge_X = map P_discharge (optimize_greedy cfg data),
       P_grid_import_X = map P_grid_import (optimize_greedy cfg data),
       P_grid_export_X = map P_grid_export (optimize_greedy cfg data),
       SOC_X = soc_values cfg data,
       is_charging_X = map (\<lambda>r. if 0 < P_charge r then 1 else 0) (optimize_greedy cfg data),
       is_discharging_X = map (\<lambda>r. if 0 < P_discharge r then 1 else 0) (optimize_greedy cfg data) \<rparr>"

text \<open>Inputs on which the greedy scheduler stays inside the exact model: a positive period
  length and positive efficiencies, a capacity and power limits that are not negative, an
  initial state between empty and full, and in every period a generation that is not
  negative, a ramp limit that covers generation plus the largest discharge (so that it never
  binds), and a price above the export floor unless there is no generation.\<close>

definition inputs_fit_exact_model :: "optimizer \<Rightarrow> period list \<Rightarrow> bool" where
  "inputs_fit_exact_model cfg data \<longleftrightarrow>
     0 < dt cfg \<and> 0 < eta_c cfg \<and> 0 < eta_d cfg \<and> 0 \<le> E_capacity cfg \<and>
     0 \<le> initial_soc cfg \<and> initial_soc cfg \<le> 1 \<and>
     0 \<le> P_charge_max cfg \<and> 0 \<le> P_discharge_max cfg \<and>
     (\<forall>p\<in>set data.
        0 \<le> pv_power p \<and>
        pv_power p + P_discharge_max cfg \<le> max_ramp cfg \<and>
        (min_export_price cfg < rrp p \<or> pv_power p = 0))"

text \<open>What the exact model asks of one period, said of a row of the greedy schedule, the
  state of charge before the period and the period itself.\<close>

definition exact_row :: "optimizer \<Rightarrow> real \<Rightarrow> period \<Rightarrow> result \<Rightarrow> bool" where
  "exact_row cfg s p r \<longleftrightarrow>
     0 \<le> P_charge r \<and> P_charge r \<le> P_charge_max cfg \<and>
     0 \<le> P_discharge r \<and> P_discharge r \<le> P_discharge_max cfg \<and>
     0 \<le> P_grid_import r \<and>
     0 \<le> P_grid_export r \<and> P_grid_export r \<le> max_ramp cfg \<and>
     (P_charge r = 0 \<or> P_discharge r = 0) \<and>
     pv_power p + P_discharge r + P_grid_import r = P_charge r + P_grid_export r \<and>
     (rrp p < min_export_price cfg \<longrightarrow> P_grid_export r = 0) \<and>
     SOC r = s + P_charge r * dt cfg * eta_c cfg - P_discharge r * dt cfg / eta_d cfg \<and>
     0 \<le> SOC r \<and> SOC r \<le> E_capacity cfg"

section \<open>Concrete runs\<close>

text \<open>Two periods with the default configuration: a price below the export floor, then a
  high price.\<close>

definition two_periods :: "period list" where
  "two_periods = load_data default_optimizer [(1000, - 1), (1000, 0.08)] None"

definition two_periods_solution :: solution where
  "two_periods_solution =
     \<lparr> P_charge_X = [3.79, 0],
       P_discharge_X = [0, 250],
       P_grid_import_X = [0, 0],
       P_grid_export_X = [0, 253.79],
       SOC_X = [500, 500 + 3.79 * (5 / 60) * 0.95,
                500 + 3.79 * (5 / 60) * 0.95 - 250 * (5 / 60) / 0.95],
       is_charging_X = [1, 0],
       is_discharging_X = [0, 1] \<rparr>"

text \<open>One period with a price far below the export floor and full irradiance.\<close>

definition negative_price_period :: "period list" where
  "negative_price_period = load_data default_optimizer [(1000, - 1)] None"

text \<open>A configuration with a ramp rate of 0.005 kW/s (1.5 kW per period), everything else as
  the defaults, and two series of three periods: two periods of ordinary price with full
  irradiance, then a cheap period with half irradiance, or with none.\<close>

definition slow_ramp_optimizer :: optimizer where
  "slow_ramp_optimizer = optimizer_init 10 3.79 250 250 1000 0.95 0.95 0.005 0.5"

definition three_periods_charging :: "period list" where
  "three_periods_charging =
     load_data slow_ramp_optimizer [(1000, 0.05), (1000, 0.05), (500, 0.01)] None"

definition three_periods_dark :: "period list" where
  "three_periods_dark =
     load_data slow_ramp_optimizer [(1000, 0.05), (1000, 0.05), (0, 0.01)] None"

text \<open>A row as \<^verbatim>\<open>DaytimeStorageOptimizer._optimize_single_day\<close> writes it for a charging period
  that starts with an empty battery: all generation goes to the battery, the grid supplies the
  rest of the charging power, nothing is exported or curtailed.\<close>

definition daytime_charging_row :: daytime_result where
  "daytime_charging_row =
     \<lparr> poa = 1000, rrp = 0.02, pv_power = 3.79, P_charge = 250, P_discharge = 0,
       P_grid_import = 246.21, P_grid_export = 0, SOC = 250 * (5 / 60) * 0.95,
       P_pv_curtail = 0 \<rparr>"

text \<open>A series whose only period has a negative irradiance.\<close>

definition negative_irradiance :: "(real \<times> real) list" where
  "negative_irradiance = [(- 100, 0.05)]"

text \<open>A battery that starts full, with the slow ramp rate; one period with a price between
  the export floor and zero; and the assignment of the exact model that exports the whole
  generation and leaves the battery alone.\<close>

definition full_battery_slow_ramp_optimizer :: optimizer where
  "full_battery_slow_ramp_optimizer = optimizer_init 10 3.79 250 250 1000 0.95 0.95 0.005 1"

definition mild_negative_period :: "period list" where
  "mild_negative_period = load_data default_optimizer [(1000, - 0.005)] None"

definition export_all_solution :: solution where
  "export_all_solution =
     \<lparr> P_charge_X = [0],
       P_discharge_X = [0],
       P_grid_import_X = [0],
       P_grid_export_X = [3.79],
       SOC_X = [1000, 1000],
       is_charging_X = [0],
       is_discharging_X = [0] \<rparr>"

text \<open>For the linear program: 76 periods without irradiance at a price of \<open>-5\<close>, above the
  floor of \<open>-10\<close>, and the assignment that buys at the grid limit in every period and, in
  the last one, discharges what the full battery cannot take.\<close>

definition negative_price_night :: "lp_period list" where
  "negative_price_night = lp_load lp_OptimizationConfig (replicate 76 (0, - 5))"

definition burn_solution :: lp_solution where
  "burn_solution =
     \<lparr> charge_grid = replicate 76 (335 / 6),
       charge_pv = replicate 76 0,
       discharge = replicate 75 0 @ [3553 / 120],
       soc_var = map (\<lambda>t. 0.95 * (335 / 6) * real (t + 1)) [0..<75] @ [4000],
       export_pv = replicate 76 0,
       export_battery = replicate 75 0 @ [0.95 * (3553 / 120)],
       curtail = replicate 76 0 \<rparr>"

text \<open>For the day-partitioned scheduler: a day of one sunny and one dark period, and the first
  period of the next day.\<close>

definition sunny_then_dark :: "v2_row list list" where
  "sunny_then_dark =
     [[v2_row_of v2_OptimizationConfig 0 500 20 50 600,
       v2_row_of v2_OptimizationConfig 1 0 100 0 0],
      [v2_row_of v2_OptimizationConfig 2 500 30 50 600]]"

text \<open>For the day-partitioned scheduler: one day of two sunny periods, the later one cheaper.\<close>

definition two_sunny_periods :: "v2_row list list" where
  "two_sunny_periods =
     [[v2_row_of v2_OptimizationConfig 0 500 50 50 600,
       v2_row_of v2_OptimizationConfig 1 500 10 50 600]]"

text \<open>One period of ordinary price with full irradiance under the default configuration, and
  the assignment of the exact model that discharges at full power into it.\<close>

definition one_dear_period :: "period list" where
  "one_dear_period = load_data default_optimizer [(1000, 0.05)] None"

definition discharge_all_solution :: solution where
  "discharge_all_solution =
     \<lparr> P_charge_X = [0],
       P_discharge_X = [250],
       P_grid_import_X = [0],
       P_grid_export_X = [253.79],
       SOC_X = [500, 500 - 250 * (5 / 60) / 0.95],
       is_charging_X = [0],
       is_discharging_X = [1] \<rparr>"

section \<open>Evaluation of concrete runs\<close>

lemmas eval_config = default_optimizer_def optimizer_init_def
lemmas eval_data = load_data_def truncate_periods_def
lemmas eval_greedy = optimize_greedy_def quantile_def greedy_step_def decide_def headroom_def
  ramp_limited_def soc_update_def clip_def min_export_price_def period.extend_def Let_def
lemmas eval_gurobi = gurobi_feasible_def variable_bounds_def initial_soc_constr_def
  soc_balance_def power_balance_def no_simul_charge_discharge_def big_M_def ramp_constr_def
  min_price_constr_def All_less_Suc

lemma two_periods_eq:
  "two_periods = [\<lparr> poa = 1000, rrp = - 1, pv_power = 3.79 \<rparr>,
                  \<lparr> poa = 1000, rrp = 0.08, pv_power = 3.79 \<rparr>]"
  by (simp add: two_periods_def eval_config eval_data)

lemma two_periods_feasible: "gurobi_feasible default_optimizer two_periods two_periods_solution"
  by (simp add: two_periods_eq two_periods_solution_def eval_config eval_gurobi min_export_price_def)

lemma two_periods_greedy:
  "optimize_greedy default_optimizer two_periods =
     [\<lparr> poa = 1000, rrp = - 1, pv_power = 3.79, P_charge = 250, P_discharge = 0,
        P_grid_import = 250, P_grid_export = 3.79, SOC = 12475 / 24 \<rparr>,
      \<lparr> poa = 1000, rrp = 0.08, pv_power = 3.79, P_charge = 0, P_discharge = 250,
        P_grid_import = 0, P_grid_export = 253.79, SOC = 12475 / 24 - 250 * (5 / 60) / 0.95 \<rparr>]"
  by (simp add: two_periods_eq eval_config eval_greedy)

lemma negative_price_period_greedy:
  "optimize_greedy default_optimizer negative_price_period =
     [\<lparr> poa = 1000, rrp = - 1, pv_power = 3.79, P_charge = 250, P_discharge = 0,
        P_grid_import = 250, P_grid_export = 3.79, SOC = 12475 / 24 \<rparr>]"
  by (simp add: negative_price_period_def eval_config eval_data eval_greedy)

lemma three_periods_charging_greedy:
  "optimize_greedy slow_ramp_optimizer three_periods_charging =
     [\<lparr> poa = 1000, rrp = 0.05, pv_power = 3.79, P_charge = 0, P_discharge = 0,
        P_grid_import = 0, P_grid_export = 1.5, SOC = 500 \<rparr>,
      \<lparr> poa = 1000, rrp = 0.05, pv_power = 3.79, P_charge = 0, P_discharge = 0,
        P_grid_import = 0, P_grid_export = 3, SOC = 500 \<rparr>,
      \<lparr> poa = 500, rrp = 0.01, pv_power = 1.895, P_charge = 1.895, P_discharge = 0,
        P_grid_import = 0, P_grid_export = 1.5, SOC = 500 + 1.895 * (5 / 60) * 0.95 \<rparr>]"
  by (simp add: three_periods_charging_def slow_ramp_optimizer_def eval_config eval_data
      eval_greedy)

lemma three_periods_dark_greedy:
  "optimize_greedy slow_ramp_optimizer three_periods_dark =
     [\<lparr> poa = 1000, rrp = 0.05, pv_power = 3.79, P_charge = 0, P_discharge = 0,
        P_grid_import = 0, P_grid_export = 1.5, SOC = 500 \<rparr>,
      \<lparr> poa = 1000, rrp = 0.05, pv_power = 3.79, P_charge = 0, P_discharge = 0,
        P_grid_import = 0, P_grid_export = 3, SOC = 500 \<rparr>,
      \<lparr> poa = 0, rrp = 0.01, pv_power = 0, P_charge = 0, P_discharge = 0,
        P_grid_import = 0, P_grid_export = 0, SOC = 500 \<rparr>]"
  by (simp add: three_periods_dark_def slow_ramp_optimizer_def eval_config eval_data
      eval_greedy)

lemma mild_negative_period_eq:
  "mild_negative_period = [\<lparr> poa = 1000, rrp = - 0.005, pv_power = 3.79 \<rparr>]"
  by (simp add: mild_negative_period_def eval_config eval_data)

lemma mild_negative_greedy_slow:
  "optimize_greedy full_battery_slow_ramp_optimizer mild_negative_period =
     [\<lparr> poa = 1000, rrp = - 0.005, pv_power = 3.79, P_charge = 0, P_discharge = 0,
        P_grid_import = 0, P_grid_export = 1.5, SOC = 1000 \<rparr>]"
  by (simp add: mild_negative_period_eq full_battery_slow_ramp_optimizer_def optimizer_init_def
      eval_greedy)

section \<open>Lemmas on the greedy loop and the constraints\<close>

lemma decide_exclusive:
  "decide cfg q25 q75 soc pv r = (ch, dis, imp, ex) \<Longrightarrow> ch = 0 \<or> dis = 0"
  by (auto simp: decide_def Let_def split: if_splits)

lemma greedy_step_exclusive:
  "P_charge (greedy_step cfg q25 q75 soc prev p) = 0 \<or>
   P_discharge (greedy_step cfg q25 q75 soc prev p) = 0"
proof -
  obtain ch dis imp ex where d: "decide cfg q25 q75 soc (pv_power p) (rrp p) = (ch, dis, imp, ex)"
    by (cases "decide cfg q25 q75 soc (pv_power p) (rrp p)") auto
  from decide_exclusive [OF d] show ?thesis
    by (simp add: greedy_step_def d period.extend_def)
qed

lemma greedy_loop_exclusive:
  "r \<in> set (greedy_loop cfg q25 q75 soc prev ps) \<Longrightarrow> P_charge r = 0 \<or> P_discharge r = 0"
proof (induction ps arbitrary: soc prev)
  case Nil
  then show ?case by simp
next
  case (Cons p ps)
  then show ?case
    using greedy_step_exclusive [of cfg q25 q75 soc prev p]
    by (auto simp: Let_def)
qed

lemma big_M_exclusive:
  fixes ch dis M :: real and ic idc :: int
  assumes "0 \<le> ch" "0 \<le> dis" "ic = 0 \<or> ic = 1" "idc = 0 \<or> idc = 1"
    and "ic + idc \<le> 1" "ch \<le> M * real_of_int ic" "dis \<le> M * real_of_int idc"
  shows "ch = 0 \<or> dis = 0"
  using assms by auto

lemma gurobi_exclusive:
  assumes "gurobi_feasible cfg data x" "t < length data"
  shows "P_charge_X x ! t = 0 \<or> P_discharge_X x ! t = 0"
proof -
  from assms have vb: "variable_bounds cfg (length data) x"
    and ns: "no_simul_charge_discharge cfg (length data) x"
    by (simp_all add: gurobi_feasible_def)
  from vb assms(2) have b: "0 \<le> P_charge_X x ! t" "0 \<le> P_discharge_X x ! t"
    "is_charging_X x ! t = 0 \<or> is_charging_X x ! t = 1"
    "is_discharging_X x ! t = 0 \<or> is_discharging_X x ! t = 1"
    by (simp_all add: variable_bounds_def)
  from ns assms(2) have c: "is_charging_X x ! t + is_discharging_X x ! t \<le> 1"
    "P_charge_X x ! t \<le> big_M cfg * real_of_int (is_charging_X x ! t)"
    "P_discharge_X x ! t \<le> big_M cfg * real_of_int (is_discharging_X x ! t)"
    by (simp_all add: no_simul_charge_discharge_def)
  show ?thesis by (rule big_M_exclusive [OF b c])
qed

lemma clip_bounds: "0 \<le> hi \<Longrightarrow> 0 \<le> clip x 0 hi \<and> clip x 0 hi \<le> hi"
  by (simp add: clip_def)

lemma greedy_step_SOC:
  "SOC (greedy_step cfg q25 q75 soc prev p) =
     soc_update cfg soc (P_charge (greedy_step cfg q25 q75 soc prev p))
       (P_discharge (greedy_step cfg q25 q75 soc prev p))"
  by (cases "decide cfg q25 q75 soc (pv_power p) (rrp p)")
     (simp add: greedy_step_def period.extend_def)

lemma greedy_loop_SOC_bounds:
  "0 \<le> E_capacity cfg \<Longrightarrow> r \<in> set (greedy_loop cfg q25 q75 soc prev ps) \<Longrightarrow>
   0 \<le> SOC r \<and> SOC r \<le> E_capacity cfg"
proof (induction ps arbitrary: soc prev)
  case Nil
  then show ?case by simp
next
  case (Cons p ps)
  then show ?case
    using clip_bounds [of "E_capacity cfg"]
    by (auto simp: Let_def greedy_step_SOC soc_update_def)
qed

lemma length_greedy_loop [simp]: "length (greedy_loop cfg q25 q75 soc prev ps) = length ps"
  by (induction ps arbitrary: soc prev) (simp_all add: Let_def)

lemma greedy_loop_recurrence:
  "t < length ps \<Longrightarrow>
   (soc # map SOC (greedy_loop cfg q25 q75 soc prev ps)) ! Suc t =
     soc_update cfg ((soc # map SOC (greedy_loop cfg q25 q75 soc prev ps)) ! t)
       (P_charge (greedy_loop cfg q25 q75 soc prev ps ! t))
       (P_discharge (greedy_loop cfg q25 q75 soc prev ps ! t))"
proof (induction ps arbitrary: soc prev t)
  case Nil
  then show ?case by simp
next
  case (Cons p ps)
  show ?case
  proof (cases t)
    case 0
    then show ?thesis by (simp add: Let_def greedy_step_SOC [symmetric])
  next
    case (Suc k)
    with Cons.prems have k: "k < length ps" by simp
    from Cons.IH [OF k, of "SOC (greedy_step cfg q25 q75 soc prev p)"
        "P_grid_export (greedy_step cfg q25 q75 soc prev p)"]
    show ?thesis using Suc by (simp add: Let_def)
  qed
qed

lemma decide_negative_export:
  "decide cfg q25 q75 soc pv r = (ch, dis, imp, ex) \<Longrightarrow> ex < 0 \<Longrightarrow> ex = pv + dis"
  by (auto simp: decide_def Let_def split: if_splits)

lemma load_data_None:
  "load_data cfg rows None =
     map (\<lambda>(p, r). \<lparr> poa = p, rrp = r, pv_power = p * poa_to_power_ratio cfg / 1000 \<rparr>) rows"
  by (simp add: load_data_def truncate_periods_def)

lemma set_truncate_periods: "set (truncate_periods mp xs) \<subseteq> set xs"
  by (auto simp: truncate_periods_def split: option.splits dest: in_set_takeD)

lemma load_data_row:
  "i < length rows \<Longrightarrow>
   load_data cfg rows None ! i =
     \<lparr> poa = fst (rows ! i), rrp = snd (rows ! i),
       pv_power = fst (rows ! i) * poa_to_power_ratio cfg / 1000 \<rparr>"
  by (cases "rows ! i") (simp add: load_data_None)

lemma load_data_member:
  assumes "p \<in> set (load_data cfg rows max_periods)"
  shows "pv_power p = poa p * poa_to_power_ratio cfg / 1000"
proof -
  from assms set_truncate_periods
  have "p \<in> set (map (\<lambda>(p, r). \<lparr> poa = p, rrp = r,
      pv_power = p * poa_to_power_ratio cfg / 1000 \<rparr>) rows)"
    unfolding load_data_def by (rule rev_subsetD)
  then obtain a b where "p = \<lparr> poa = a, rrp = b, pv_power = a * poa_to_power_ratio cfg / 1000 \<rparr>"
    by (auto simp: image_iff)
  then show ?thesis by simp
qed

lemma greedy_loop_period:
  "t < length ps \<Longrightarrow>
   rrp (greedy_loop cfg q25 q75 soc prev ps ! t) = rrp (ps ! t) \<and>
   pv_power (greedy_loop cfg q25 q75 soc prev ps ! t) = pv_power (ps ! t)"
proof (induction ps arbitrary: soc prev t)
  case Nil
  then show ?case by simp
next
  case (Cons p ps)
  show ?case
  proof (cases t)
    case 0
    then show ?thesis
      by (cases "decide cfg q25 q75 soc (pv_power p) (rrp p)")
         (simp add: Let_def greedy_step_def period.extend_def period.defs)
  next
    case (Suc k)
    with Cons.prems have k: "k < length ps" by simp
    from Cons.IH [OF k] show ?thesis using Suc by (simp add: Let_def)
  qed
qed

lemma sum_list_by_index: "sum_list (map f xs) = (\<Sum>t\<leftarrow>[0..<length xs]. f (xs ! t))"
proof -
  have "map f xs = map f (map (\<lambda>t. xs ! t) [0..<length xs])"
    by (simp only: map_nth)
  then show ?thesis by (simp add: comp_def)
qed

lemma extract_revenue_total:
  "total_net_revenue (extract_revenue cfg data x) = objective cfg data x"
  by (simp add: total_net_revenue_def extract_revenue_def extract_results_def objective_def
      comp_def period.defs)

lemma greedy_revenue_total:
  "total_net_revenue (calculate_revenue cfg (optimize_greedy cfg data)) =
     (\<Sum>t\<leftarrow>[0..<length data].
        P_grid_export (optimize_greedy cfg data ! t) * dt cfg * rrp (data ! t)
        - P_grid_import (optimize_greedy cfg data ! t) * dt cfg * rrp (data ! t)
        + pv_power (data ! t) * dt cfg * lgc_price cfg)"
proof -
  have l: "length (optimize_greedy cfg data) = length data"
    by (simp add: optimize_greedy_def)
  have "total_net_revenue (calculate_revenue cfg (optimize_greedy cfg data)) =
      (\<Sum>t\<leftarrow>[0..<length data].
         net_revenue (calculate_revenue_row cfg (optimize_greedy cfg data ! t)))"
    using sum_list_by_index [of "\<lambda>r. net_revenue (calculate_revenue_row cfg r)"
        "optimize_greedy cfg data"]
    by (simp add: total_net_revenue_def calculate_revenue_def l comp_def)
  also have "\<dots> = (\<Sum>t\<leftarrow>[0..<length data].
        P_grid_export (optimize_greedy cfg data ! t) * dt cfg * rrp (data ! t)
        - P_grid_import (optimize_greedy cfg data ! t) * dt cfg * rrp (data ! t)
        + pv_power (data ! t) * dt cfg * lgc_price cfg)"
  proof (rule arg_cong [where f = sum_list], rule map_cong [OF refl])
    fix t assume "t \<in> set [0..<length data]"
    then have t: "t < length data" by simp
    from greedy_loop_period [OF t] show
      "net_revenue (calculate_revenue_row cfg (optimize_greedy cfg data ! t)) =
        P_grid_export (optimize_greedy cfg data ! t) * dt cfg * rrp (data ! t)
        - P_grid_import (optimize_greedy cfg data ! t) * dt cfg * rrp (data ! t)
        + pv_power (data ! t) * dt cfg * lgc_price cfg"
      by (simp add: calculate_revenue_row_def Let_def optimize_greedy_def)
  qed
  finally show ?thesis .
qed

lemma gurobi_optimalI:
  assumes "gurobi_feasible cfg data x"
    and "\<And>y. gurobi_feasible cfg data y \<Longrightarrow> objective cfg data y \<le> objective cfg data x"
    and "0 \<le> mip_gap"
  shows "gurobi_optimal cfg data mip_gap x"
  unfolding gurobi_optimal_def
proof (intro conjI exI [of _ "objective cfg data x"] allI impI)
  show "gurobi_feasible cfg data x" by fact
  show "objective cfg data y \<le> objective cfg data x" if "gurobi_feasible cfg data y" for y
    using that by (rule assms(2))
  from assms(3) have "0 \<le> mip_gap * \<bar>objective cfg data x\<bar>" by simp
  then show "objective cfg data x - objective cfg data x \<le> mip_gap * \<bar>objective cfg data x\<bar>"
    by simp
qed

lemma gurobi_optimal_bound:
  assumes "gurobi_optimal cfg data mip_gap x" and "gurobi_feasible cfg data y"
  shows "objective cfg data y \<le> objective cfg data x + mip_gap * \<bar>objective cfg data x\<bar>"
proof -
  from assms(1) obtain bound where
    b: "\<forall>y. gurobi_feasible cfg data y \<longrightarrow> objective cfg data y \<le> bound"
    and g: "bound - objective cfg data x \<le> mip_gap * \<bar>objective cfg data x\<bar>"
    unfolding gurobi_optimal_def by blast
  from b assms(2) have "objective cfg data y \<le> bound" by blast
  with g show ?thesis by linarith
qed

lemma full_battery_optimal:
  assumes cfg: "cfg = optimizer_init 10 3.79 250 250 1000 0.95 0.95 rr 1"
    and gap: "0 \<le> mip_gap"
  shows "gurobi_optimal cfg mild_negative_period mip_gap export_all_solution"
proof (rule gurobi_optimalI [OF _ _ gap])
  show "gurobi_feasible cfg mild_negative_period export_all_solution"
    by (simp add: cfg mild_negative_period_eq export_all_solution_def optimizer_init_def
        eval_gurobi min_export_price_def)
next
  fix y
  assume f: "gurobi_feasible cfg mild_negative_period y"
  have len: "length mild_negative_period = 1" by (simp add: mild_negative_period_eq)
  from f have soc0: "SOC_X y ! 0 = 1000"
    by (simp add: gurobi_feasible_def initial_soc_constr_def cfg optimizer_init_def)
  from f have soc1: "SOC_X y ! 1 =
      SOC_X y ! 0 + P_charge_X y ! 0 * (5 / 60) * 0.95 - P_discharge_X y ! 0 * (5 / 60) / 0.95"
    by (simp add: gurobi_feasible_def soc_balance_def len cfg optimizer_init_def)
  from f have ub: "SOC_X y ! 1 \<le> 1000"
    by (simp add: gurobi_feasible_def variable_bounds_def len cfg optimizer_init_def)
  from f have nn: "0 \<le> P_charge_X y ! 0" "0 \<le> P_discharge_X y ! 0"
    by (simp_all add: gurobi_feasible_def variable_bounds_def len)
  from f have excl: "P_charge_X y ! 0 = 0 \<or> P_discharge_X y ! 0 = 0"
    by (rule gurobi_exclusive) (simp add: len)
  from f have bal: "3.79 + P_discharge_X y ! 0 + P_grid_import_X y ! 0 =
      P_charge_X y ! 0 + P_grid_export_X y ! 0"
    by (simp add: gurobi_feasible_def power_balance_def mild_negative_period_eq)
  have ch: "P_charge_X y ! 0 = 0"
  proof (rule ccontr)
    assume "P_charge_X y ! 0 \<noteq> 0"
    with nn excl have "0 < P_charge_X y ! 0" "P_discharge_X y ! 0 = 0" by auto
    with soc0 soc1 ub show False by simp
  qed
  with bal nn have "3.79 \<le> P_grid_export_X y ! 0 - P_grid_import_X y ! 0" by simp
  then show "objective cfg mild_negative_period y
      \<le> objective cfg mild_negative_period export_all_solution"
    by (simp add: objective_def mild_negative_period_eq export_all_solution_def cfg
        optimizer_init_def)
qed

section \<open>Lemmas on the ramp limit of the greedy loop\<close>

lemma ramp_limited_up:
  assumes "0 \<le> max_ramp cfg" and "ex < 0 \<longrightarrow> ex = pv + dis"
  shows "ramp_limited cfg prev pv dis ex - prev \<le> max_ramp cfg"
  using assms by (auto simp: ramp_limited_def Let_def split: if_splits)

lemma ramp_limited_down:
  assumes "0 \<le> max_ramp cfg"
  shows "prev - ramp_limited cfg prev pv dis ex \<le> max_ramp cfg \<or>
         (ramp_limited cfg prev pv dis ex = pv + dis \<and> pv + dis < prev - max_ramp cfg)"
  using assms by (auto simp: ramp_limited_def Let_def split: if_splits)

lemma greedy_step_ramp_up_down:
  assumes "0 \<le> max_ramp cfg"
  shows "P_grid_export (greedy_step cfg q25 q75 soc prev p) - prev \<le> max_ramp cfg \<and>
         (prev - P_grid_export (greedy_step cfg q25 q75 soc prev p) \<le> max_ramp cfg \<or>
          (P_grid_export (greedy_step cfg q25 q75 soc prev p) =
             pv_power (greedy_step cfg q25 q75 soc prev p)
             + P_discharge (greedy_step cfg q25 q75 soc prev p) \<and>
           pv_power (greedy_step cfg q25 q75 soc prev p)
             + P_discharge (greedy_step cfg q25 q75 soc prev p) < prev - max_ramp cfg))"
proof -
  obtain ch dis imp ex where d: "decide cfg q25 q75 soc (pv_power p) (rrp p) = (ch, dis, imp, ex)"
    by (cases "decide cfg q25 q75 soc (pv_power p) (rrp p)") auto
  have n: "ex < 0 \<longrightarrow> ex = pv_power p + dis"
    using decide_negative_export [OF d] by simp
  from ramp_limited_up [OF assms n, of prev] ramp_limited_down [OF assms, of prev "pv_power p" dis ex]
  show ?thesis
    by (simp add: greedy_step_def d period.extend_def period.defs)
qed

lemma greedy_loop_ramp_up_down:
  assumes "0 \<le> max_ramp cfg"
  shows "t < length ps \<Longrightarrow>
    P_grid_export (greedy_loop cfg q25 q75 soc prev ps ! t)
      - (prev # map P_grid_export (greedy_loop cfg q25 q75 soc prev ps)) ! t \<le> max_ramp cfg \<and>
    ((prev # map P_grid_export (greedy_loop cfg q25 q75 soc prev ps)) ! t
       - P_grid_export (greedy_loop cfg q25 q75 soc prev ps ! t) \<le> max_ramp cfg \<or>
     (P_grid_export (greedy_loop cfg q25 q75 soc prev ps ! t) =
        pv_power (greedy_loop cfg q25 q75 soc prev ps ! t)
        + P_discharge (greedy_loop cfg q25 q75 soc prev ps ! t) \<and>
      pv_power (greedy_loop cfg q25 q75 soc prev ps ! t)
        + P_discharge (greedy_loop cfg q25 q75 soc prev ps ! t)
      < (prev # map P_grid_export (greedy_loop cfg q25 q75 soc prev ps)) ! t - max_ramp cfg))"
proof (induction ps arbitrary: soc prev t)
  case Nil
  then show ?case by simp
next
  case (Cons p ps)
  show ?case
  proof (cases t)
    case 0
    then show ?thesis using greedy_step_ramp_up_down [OF assms, of q25 q75 soc prev p]
      by (simp add: Let_def)
  next
    case (Suc k)
    with Cons.prems have k: "k < length ps" by simp
    from Cons.IH [OF k, of "SOC (greedy_step cfg q25 q75 soc prev p)"
        "P_grid_export (greedy_step cfg q25 q75 soc prev p)"]
    show ?thesis using Suc by (simp add: Let_def)
  qed
qed

section \<open>The greedy schedule inside the exact model\<close>

lemma decide_within_limits:
  assumes h: "0 \<le> headroom cfg s"
    and d: "0 \<le> s * eta_d cfg / dt cfg"
    and c: "0 \<le> P_charge_max cfg" "0 \<le> P_discharge_max cfg"
    and pv: "0 \<le> pv"
    and fl: "min_export_price cfg < r \<or> pv = 0"
    and dec: "decide cfg q25 q75 s pv r = (ch, dis, imp, ex)"
  shows "0 \<le> ch \<and> ch \<le> P_charge_max cfg \<and> ch \<le> headroom cfg s"
    and "0 \<le> dis \<and> dis \<le> P_discharge_max cfg \<and> dis \<le> s * eta_d cfg / dt cfg"
    and "0 \<le> imp"
    and "0 \<le> ex \<and> ex \<le> pv + dis"
    and "ch = 0 \<or> dis = 0"
    and "pv + dis + imp = ch + ex"
    and "r < min_export_price cfg \<longrightarrow> ex = 0"
proof -
  consider (neg) "r < 0"
    | (low) "\<not> r < 0" "r < q25"
    | (high) "\<not> r < 0" "\<not> r < q25" "q75 < r"
    | (mid) "\<not> r < 0" "\<not> r < q25" "\<not> q75 < r"
    by blast
  then have "(0 \<le> ch \<and> ch \<le> P_charge_max cfg \<and> ch \<le> headroom cfg s) \<and>
    (0 \<le> dis \<and> dis \<le> P_discharge_max cfg \<and> dis \<le> s * eta_d cfg / dt cfg) \<and>
    0 \<le> imp \<and> (0 \<le> ex \<and> ex \<le> pv + dis) \<and> (ch = 0 \<or> dis = 0) \<and>
    pv + dis + imp = ch + ex \<and> (r < min_export_price cfg \<longrightarrow> ex = 0)"
  proof cases
    case neg
    with dec h d c pv fl show ?thesis
      by (auto simp add: decide_def Let_def min_def split: if_splits)
  next
    case low
    with dec h d c pv fl show ?thesis
      by (auto simp add: decide_def Let_def min_def split: if_splits)
  next
    case high
    with dec h d c pv fl show ?thesis
      by (auto simp add: decide_def Let_def min_def split: if_splits)
  next
    case mid
    with dec h d c pv fl show ?thesis
      by (auto simp add: decide_def Let_def split: if_splits)
  qed
  then show "0 \<le> ch \<and> ch \<le> P_charge_max cfg \<and> ch \<le> headroom cfg s"
    and "0 \<le> dis \<and> dis \<le> P_discharge_max cfg \<and> dis \<le> s * eta_d cfg / dt cfg"
    and "0 \<le> imp"
    and "0 \<le> ex \<and> ex \<le> pv + dis"
    and "ch = 0 \<or> dis = 0"
    and "pv + dis + imp = ch + ex"
    and "r < min_export_price cfg \<longrightarrow> ex = 0"
    by blast+
qed

lemma greedy_step_exact:
  assumes pos: "0 < dt cfg" "0 < eta_c cfg" "0 < eta_d cfg"
    and c: "0 \<le> P_charge_max cfg" "0 \<le> P_discharge_max cfg"
    and s: "0 \<le> s" "s \<le> E_capacity cfg"
    and prev: "0 \<le> prev" "prev \<le> max_ramp cfg"
    and pv: "0 \<le> pv_power p"
    and ramp: "pv_power p + P_discharge_max cfg \<le> max_ramp cfg"
    and fl: "min_export_price cfg < rrp p \<or> pv_power p = 0"
  shows "exact_row cfg s p (greedy_step cfg q25 q75 s prev p)"
proof -
  obtain ch dis imp ex where dec: "decide cfg q25 q75 s (pv_power p) (rrp p) = (ch, dis, imp, ex)"
    by (cases "decide cfg q25 q75 s (pv_power p) (rrp p)") blast
  from pos have k: "0 < dt cfg * eta_c cfg" by simp
  from s k have h: "0 \<le> headroom cfg s" by (simp add: headroom_def)
  from s pos have d: "0 \<le> s * eta_d cfg / dt cfg" by simp
  note w = decide_within_limits [OF h d c pv fl dec]
  from w(1) k have "ch * (dt cfg * eta_c cfg) \<le> headroom cfg s * (dt cfg * eta_c cfg)"
    by (simp add: mult_right_mono)
  also from pos have "\<dots> = E_capacity cfg - s" by (simp add: headroom_def)
  finally have up: "ch * dt cfg * eta_c cfg \<le> E_capacity cfg - s" by (simp add: mult.assoc)
  from w(1) k have up0: "0 \<le> ch * dt cfg * eta_c cfg" using pos by simp
  from w(2) pos have "dis * (dt cfg / eta_d cfg) \<le> (s * eta_d cfg / dt cfg) * (dt cfg / eta_d cfg)"
    by (intro mult_right_mono) simp_all
  also from pos have "\<dots> = s" by simp
  finally have down: "dis * dt cfg / eta_d cfg \<le> s" by simp
  from w(2) pos have down0: "0 \<le> dis * dt cfg / eta_d cfg" by simp
  have chz: "ch = 0 \<Longrightarrow> ch * dt cfg * eta_c cfg = 0" by simp
  have dz: "dis = 0 \<Longrightarrow> dis * dt cfg / eta_d cfg = 0" by simp
  from w(5) up up0 down down0 chz dz s
  have lo: "0 \<le> s + ch * dt cfg * eta_c cfg - dis * dt cfg / eta_d cfg"
    and hi: "s + ch * dt cfg * eta_c cfg - dis * dt cfg / eta_d cfg \<le> E_capacity cfg"
    by linarith+
  then have su: "soc_update cfg s ch dis = s + ch * dt cfg * eta_c cfg - dis * dt cfg / eta_d cfg"
    by (simp add: soc_update_def clip_def)
  from w(2,4) ramp have exr: "ex \<le> max_ramp cfg" by linarith
  with w(4) prev have "\<not> max_ramp cfg < \<bar>ex - prev\<bar>" by linarith
  then have rl: "ramp_limited cfg prev (pv_power p) dis ex = ex"
    by (simp add: ramp_limited_def)
  have row: "greedy_step cfg q25 q75 s prev p =
      period.extend p \<lparr> P_charge = ch, P_discharge = dis, P_grid_import = imp,
        P_grid_export = ex,
        SOC = s + ch * dt cfg * eta_c cfg - dis * dt cfg / eta_d cfg \<rparr>"
    by (simp add: greedy_step_def dec rl su)
  from w exr lo hi show ?thesis
    unfolding row exact_row_def by (simp add: period.extend_def period.defs)
qed

lemma greedy_loop_exact:
  assumes pos: "0 < dt cfg" "0 < eta_c cfg" "0 < eta_d cfg"
    and c: "0 \<le> P_charge_max cfg" "0 \<le> P_discharge_max cfg"
  shows "0 \<le> s \<Longrightarrow> s \<le> E_capacity cfg \<Longrightarrow> 0 \<le> prev \<Longrightarrow> prev \<le> max_ramp cfg \<Longrightarrow>
    \<forall>p\<in>set ps. 0 \<le> pv_power p \<and> pv_power p + P_discharge_max cfg \<le> max_ramp cfg \<and>
       (min_export_price cfg < rrp p \<or> pv_power p = 0) \<Longrightarrow>
    t < length ps \<Longrightarrow>
    exact_row cfg ((s # map SOC (greedy_loop cfg q25 q75 s prev ps)) ! t) (ps ! t)
      (greedy_loop cfg q25 q75 s prev ps ! t)"
proof (induction ps arbitrary: s prev t)
  case Nil
  then show ?case by simp
next
  case (Cons p ps)
  let ?row = "greedy_step cfg q25 q75 s prev p"
  from Cons.prems(5) have p: "0 \<le> pv_power p" "pv_power p + P_discharge_max cfg \<le> max_ramp cfg"
    "min_export_price cfg < rrp p \<or> pv_power p = 0" by simp_all
  have e: "exact_row cfg s p ?row"
    by (rule greedy_step_exact [OF pos c Cons.prems(1-4) p])
  show ?case
  proof (cases t)
    case 0
    with e show ?thesis by (simp add: Let_def)
  next
    case (Suc k)
    with Cons.prems have k: "k < length ps" by simp
    from e have r: "0 \<le> SOC ?row" "SOC ?row \<le> E_capacity cfg"
      "0 \<le> P_grid_export ?row" "P_grid_export ?row \<le> max_ramp cfg"
      by (simp_all add: exact_row_def)
    from Cons.prems(5) have ps: "\<forall>p\<in>set ps. 0 \<le> pv_power p \<and>
       pv_power p + P_discharge_max cfg \<le> max_ramp cfg \<and>
       (min_export_price cfg < rrp p \<or> pv_power p = 0)" by simp
    from Cons.IH [OF r ps k] show ?thesis using Suc by (simp add: Let_def)
  qed
qed

lemma optimize_greedy_exact:
  assumes "inputs_fit_exact_model cfg data" and t: "t < length data"
  shows "exact_row cfg (soc_values cfg data ! t) (data ! t) (optimize_greedy cfg data ! t)"
proof -
  from assms(1) have pos: "0 < dt cfg" "0 < eta_c cfg" "0 < eta_d cfg"
    and c: "0 \<le> P_charge_max cfg" "0 \<le> P_discharge_max cfg"
    and cap: "0 \<le> E_capacity cfg" and i: "0 \<le> initial_soc cfg" "initial_soc cfg \<le> 1"
    and ps: "\<forall>p\<in>set data. 0 \<le> pv_power p \<and> pv_power p + P_discharge_max cfg \<le> max_ramp cfg \<and>
       (min_export_price cfg < rrp p \<or> pv_power p = 0)"
    by (simp_all add: inputs_fit_exact_model_def)
  from cap i have s: "0 \<le> initial_soc cfg * E_capacity cfg"
    "initial_soc cfg * E_capacity cfg \<le> E_capacity cfg"
    by (simp_all add: mult_left_le_one_le)
  from t have "data ! t \<in> set data" by simp
  with ps c have "0 \<le> max_ramp cfg" by force
  from greedy_loop_exact [OF pos c s order_refl this ps t]
  show ?thesis by (simp add: soc_values_def optimize_greedy_def)
qed

lemma greedy_schedule_feasible:
  assumes a: "inputs_fit_exact_model cfg data"
  shows "gurobi_feasible cfg data (greedy_as_solution cfg data)"
proof -
  let ?x = "greedy_as_solution cfg data"
  let ?rows = "optimize_greedy cfg data"
  have l: "length ?rows = length data" by (simp add: optimize_greedy_def)
  note e = optimize_greedy_exact [OF a]
  from a have eta: "eta_d cfg \<noteq> 0" and cap: "0 \<le> E_capacity cfg"
    and i: "0 \<le> initial_soc cfg" "initial_soc cfg \<le> 1"
    by (simp_all add: inputs_fit_exact_model_def)
  from cap i have s0: "0 \<le> initial_soc cfg * E_capacity cfg"
    "initial_soc cfg * E_capacity cfg \<le> E_capacity cfg"
    by (simp_all add: mult_left_le_one_le)
  have col: "P_charge_X ?x ! t = P_charge (?rows ! t)"
    "P_discharge_X ?x ! t = P_discharge (?rows ! t)"
    "P_grid_import_X ?x ! t = P_grid_import (?rows ! t)"
    "P_grid_export_X ?x ! t = P_grid_export (?rows ! t)"
    "is_charging_X ?x ! t = (if 0 < P_charge (?rows ! t) then 1 else 0)"
    "is_discharging_X ?x ! t = (if 0 < P_discharge (?rows ! t) then 1 else 0)"
    "SOC_X ?x ! t = soc_values cfg data ! t"
    "SOC_X ?x ! (t + 1) = SOC (?rows ! t)"
    if "t < length data" for t
    using that by (simp_all add: greedy_as_solution_def l soc_values_def)
  have socs: "0 \<le> SOC_X ?x ! t \<and> SOC_X ?x ! t \<le> E_capacity cfg" if "t < length data + 1" for t
  proof (cases t)
    case 0
    with s0 show ?thesis by (simp add: greedy_as_solution_def soc_values_def)
  next
    case (Suc k)
    with that have k: "k < length data" by simp
    from e [OF k] col(8) [OF k] show ?thesis by (simp add: exact_row_def Suc)
  qed
  have vb: "variable_bounds cfg (length data) ?x"
    unfolding variable_bounds_def
  proof (intro conjI allI impI)
    fix t assume t: "t < length data + 1"
    from socs [OF t] show "0 \<le> SOC_X ?x ! t" "SOC_X ?x ! t \<le> E_capacity cfg" by simp_all
  qed (use e col in \<open>simp_all add: greedy_as_solution_def l soc_values_def exact_row_def\<close>)
  have ic: "initial_soc_constr cfg ?x"
    by (simp add: initial_soc_constr_def greedy_as_solution_def soc_values_def)
  have sb: "soc_balance cfg (length data) ?x"
    unfolding soc_balance_def
  proof (intro allI impI)
    fix t assume t: "t < length data"
    from e [OF t] show "SOC_X ?x ! (t + 1) =
        SOC_X ?x ! t + P_charge_X ?x ! t * dt cfg * eta_c cfg
          - P_discharge_X ?x ! t * dt cfg / eta_d cfg"
      by (simp only: col [OF t] exact_row_def)
  qed
  have pb: "power_balance data ?x"
    unfolding power_balance_def
  proof (intro allI impI)
    fix t assume t: "t < length data"
    from e [OF t] show "pv_power (data ! t) + P_discharge_X ?x ! t + P_grid_import_X ?x ! t =
        P_charge_X ?x ! t + P_grid_export_X ?x ! t"
      by (simp only: col [OF t] exact_row_def)
  qed
  have ns: "no_simul_charge_discharge cfg (length data) ?x"
    unfolding no_simul_charge_discharge_def
  proof (intro allI impI)
    fix t assume t: "t < length data"
    from e [OF t] have "0 \<le> P_charge (?rows ! t)" "P_charge (?rows ! t) \<le> P_charge_max cfg"
      "0 \<le> P_discharge (?rows ! t)" "P_discharge (?rows ! t) \<le> P_discharge_max cfg"
      "P_charge (?rows ! t) = 0 \<or> P_discharge (?rows ! t) = 0"
      by (simp_all add: exact_row_def)
    then show "is_charging_X ?x ! t + is_discharging_X ?x ! t \<le> 1 \<and>
        P_charge_X ?x ! t \<le> big_M cfg * real_of_int (is_charging_X ?x ! t) \<and>
        P_discharge_X ?x ! t \<le> big_M cfg * real_of_int (is_discharging_X ?x ! t)"
      unfolding col [OF t] big_M_def by auto
  qed
  have rc: "ramp_constr cfg (length data) ?x"
    unfolding ramp_constr_def
  proof (intro allI impI)
    fix t assume t: "t < length data" and t1: "1 \<le> t"
    then have t': "t - 1 < length data" by simp
    from e [OF t] e [OF t'] show
      "P_grid_export_X ?x ! t - P_grid_export_X ?x ! (t - 1) \<le> max_ramp cfg \<and>
       P_grid_export_X ?x ! (t - 1) - P_grid_export_X ?x ! t \<le> max_ramp cfg"
      unfolding col [OF t] col [OF t'] exact_row_def by linarith
  qed
  have mp: "min_price_constr cfg data ?x"
    unfolding min_price_constr_def
  proof (intro allI impI)
    fix t assume t: "t < length data" and "rrp (data ! t) < min_export_price cfg"
    with e [OF t] show "P_grid_export_X ?x ! t = 0"
      by (simp add: col [OF t] exact_row_def)
  qed
  from eta vb ic sb pb ns rc mp show ?thesis by (simp add: gurobi_feasible_def)
qed

lemma greedy_objective:
  "objective cfg data (greedy_as_solution cfg data) =
     total_net_revenue (calculate_revenue cfg (optimize_greedy cfg data))"
proof -
  have l: "length (optimize_greedy cfg data) = length data"
    by (simp add: optimize_greedy_def)
  have "objective cfg data (greedy_as_solution cfg data) =
      (\<Sum>t\<leftarrow>[0..<length data].
        P_grid_export (optimize_greedy cfg data ! t) * dt cfg * rrp (data ! t)
        - P_grid_import (optimize_greedy cfg data ! t) * dt cfg * rrp (data ! t)
        + pv_power (data ! t) * dt cfg * lgc_price cfg)"
    unfolding objective_def
  proof (rule arg_cong [where f = sum_list], rule map_cong [OF refl])
    fix t assume "t \<in> set [0..<length data]"
    then have t: "t < length (optimize_greedy cfg data)" by (simp add: l)
    then show "P_grid_export_X (greedy_as_solution cfg data) ! t * dt cfg * rrp (data ! t)
        - P_grid_import_X (greedy_as_solution cfg data) ! t * dt cfg * rrp (data ! t)
        + pv_power (data ! t) * dt cfg * lgc_price cfg =
        P_grid_export (optimize_greedy cfg data ! t) * dt cfg * rrp (data ! t)
        - P_grid_import (optimize_greedy cfg data ! t) * dt cfg * rrp (data ! t)
        + pv_power (data ! t) * dt cfg * lgc_price cfg"
      by (simp add: greedy_as_solution_def)
  qed
  then show ?thesis by (simp only: greedy_revenue_total)
qed

lemma one_dear_period_eq:
  "one_dear_period = [\<lparr> poa = 1000, rrp = 0.05, pv_power = 3.79 \<rparr>]"
  by (simp add: one_dear_period_def eval_config eval_data)

lemma one_dear_period_fits: "inputs_fit_exact_model default_optimizer one_dear_period"
  by (simp add: inputs_fit_exact_model_def one_dear_period_eq min_export_price_def eval_config)

lemma one_dear_period_greedy:
  "optimize_greedy default_optimizer one_dear_period =
     [\<lparr> poa = 1000, rrp = 0.05, pv_power = 3.79, P_charge = 0, P_discharge = 0,
        P_grid_import = 0, P_grid_export = 3.79, SOC = 500 \<rparr>]"
  by (simp add: one_dear_period_eq eval_greedy period.defs) (simp add: eval_config)

lemma discharge_all_optimal:
  assumes gap: "0 \<le> mip_gap"
  shows "gurobi_optimal default_optimizer one_dear_period mip_gap discharge_all_solution"
proof (rule gurobi_optimalI [OF _ _ gap])
  show "gurobi_feasible default_optimizer one_dear_period discharge_all_solution"
    by (simp add: one_dear_period_eq discharge_all_solution_def eval_config
        eval_gurobi min_export_price_def)
next
  fix y
  assume f: "gurobi_feasible default_optimizer one_dear_period y"
  have len: "length one_dear_period = 1" by (simp add: one_dear_period_eq)
  from f have nn: "0 \<le> P_charge_X y ! 0" "P_discharge_X y ! 0 \<le> 250"
    by (simp_all add: gurobi_feasible_def variable_bounds_def len eval_config)
  from f have bal: "3.79 + P_discharge_X y ! 0 + P_grid_import_X y ! 0 =
      P_charge_X y ! 0 + P_grid_export_X y ! 0"
    by (simp add: gurobi_feasible_def power_balance_def one_dear_period_eq)
  with nn have "P_grid_export_X y ! 0 - P_grid_import_X y ! 0 \<le> 253.79" by simp
  then show "objective default_optimizer one_dear_period y
      \<le> objective default_optimizer one_dear_period discharge_all_solution"
    by (simp add: objective_def one_dear_period_eq discharge_all_solution_def eval_config)
qed

section \<open>Lemmas on the linear program\<close>

lemma night_length: "length negative_price_night = 76"
  by (simp add: negative_price_night_def lp_load_def)

lemma night_row:
  "t < 76 \<Longrightarrow>
   negative_price_night ! t = \<lparr> POA = 0, PV_Power_kW = 0, PV_Energy_kWh = 0, RRP = - 5 \<rparr>"
  by (simp add: negative_price_night_def lp_load_def)

lemma sum_list_upper:
  fixes xs :: "real list"
  shows "(\<forall>x\<in>set xs. x \<le> c) \<Longrightarrow> sum_list xs \<le> real (length xs) * c"
  by (induction xs) (auto simp: algebra_simps)

lemma sum_list_upper_with_zero:
  fixes xs :: "real list"
  assumes "\<forall>x\<in>set xs. x \<le> c" and "t < length xs" and "xs ! t = 0"
  shows "sum_list xs \<le> (real (length xs) - 1) * c"
proof -
  have xs: "xs = take t xs @ xs ! t # drop (Suc t) xs"
    using assms(2) by (rule id_take_nth_drop)
  have a: "sum_list (take t xs) \<le> real (length (take t xs)) * c"
    using assms(1) by (intro sum_list_upper) (auto dest: in_set_takeD)
  have b: "sum_list (drop (Suc t) xs) \<le> real (length (drop (Suc t) xs)) * c"
    using assms(1) by (intro sum_list_upper) (auto dest: in_set_dropD)
  have "sum_list xs = sum_list (take t xs) + xs ! t + sum_list (drop (Suc t) xs)"
    by (subst xs) simp
  also have "\<dots> \<le> real t * c + 0 + (real (length xs) - real (Suc t)) * c"
    using a b assms(2,3) by (simp add: min_def of_nat_diff)
  also have "\<dots> = (real (length xs) - 1) * c"
    by (simp add: algebra_simps)
  finally show ?thesis .
qed

lemma sum_list_all_zero:
  fixes xs :: "real list"
  shows "(\<forall>x\<in>set xs. x = 0) \<Longrightarrow> sum_list xs = 0"
  by (induction xs) auto

lemma lp_soc_telescope:
  assumes "lp_feasible cfg data x" and "t < length data"
  shows "soc_var x ! t =
           (sum_list (take (Suc t) (charge_pv x)) + sum_list (take (Suc t) (charge_grid x)))
             * CHARGE_EFFICIENCY cfg
           - sum_list (take (Suc t) (discharge x)) / DISCHARGE_EFFICIENCY cfg"
  using assms(2)
proof (induction t)
  case 0
  from assms(1) have l: "charge_pv x \<noteq> []" "charge_grid x \<noteq> []" "discharge x \<noteq> []"
    by (auto simp: lp_feasible_def lp_variable_bounds_def)
  from assms(1) 0 have "soc_var x ! 0 =
      (charge_pv x ! 0 + charge_grid x ! 0) * CHARGE_EFFICIENCY cfg
        - discharge x ! 0 / DISCHARGE_EFFICIENCY cfg"
    by (auto simp: lp_feasible_def SOC_constr_def)
  with l show ?case by (simp add: take_Suc hd_conv_nth)
next
  case (Suc t)
  then have t: "t < length data" by simp
  from assms(1) have l: "length (charge_pv x) = length data"
    "length (charge_grid x) = length data" "length (discharge x) = length data"
    by (simp_all add: lp_feasible_def lp_variable_bounds_def)
  from assms(1) Suc.prems have "soc_var x ! Suc t =
      soc_var x ! t + (charge_pv x ! Suc t + charge_grid x ! Suc t) * CHARGE_EFFICIENCY cfg
        - discharge x ! Suc t / DISCHARGE_EFFICIENCY cfg"
    by (auto simp: lp_feasible_def SOC_constr_def)
  with Suc.IH [OF t] Suc.prems l show ?case
    by (simp add: take_Suc_conv_app_nth [of "Suc t"] algebra_simps add_divide_distrib)
qed


lemma night_facts:
  assumes f: "lp_feasible lp_OptimizationConfig negative_price_night x"
  shows "length (charge_grid x) = 76" "length (discharge x) = 76" "length (charge_pv x) = 76"
    and "\<forall>v\<in>set (charge_grid x). 0 \<le> v \<and> v \<le> 335 / 6"
    and "\<forall>v\<in>set (discharge x). 0 \<le> v"
    and "\<forall>v\<in>set (charge_pv x). v = 0"
    and "0.95 * sum_list (charge_grid x) - sum_list (discharge x) / 0.95 \<le> 4000"
    and "Total_Revenue negative_price_night x =
           0.005 * (sum_list (charge_grid x) - 0.95 * sum_list (discharge x))"
proof -
  from f have vb: "lp_variable_bounds lp_OptimizationConfig negative_price_night x"
    by (simp add: lp_feasible_def)
  from vb show l: "length (charge_grid x) = 76" "length (discharge x) = 76"
    "length (charge_pv x) = 76"
    by (simp_all add: lp_variable_bounds_def night_length)
  from vb have le: "length (export_pv x) = 76" "length (export_battery x) = 76"
    by (simp_all add: lp_variable_bounds_def night_length)
  from vb have b: "\<And>t. t < 76 \<Longrightarrow>
      0 \<le> charge_grid x ! t \<and> charge_grid x ! t \<le> 335 / 6 \<and>
      0 \<le> discharge x ! t \<and> charge_pv x ! t = 0 \<and> export_pv x ! t = 0 \<and>
      soc_var x ! t \<le> 4000"
    by (fastforce simp: lp_variable_bounds_def night_length night_row lp_OptimizationConfig_def)
  from b l show g: "\<forall>v\<in>set (charge_grid x). 0 \<le> v \<and> v \<le> 335 / 6"
    by (auto simp: in_set_conv_nth)
  from b l show d: "\<forall>v\<in>set (discharge x). 0 \<le> v"
    by (auto simp: in_set_conv_nth)
  from b l show p: "\<forall>v\<in>set (charge_pv x). v = 0"
    by (auto simp: in_set_conv_nth)
  have "soc_var x ! 75 =
      (sum_list (take (Suc 75) (charge_pv x)) + sum_list (take (Suc 75) (charge_grid x)))
        * CHARGE_EFFICIENCY lp_OptimizationConfig
      - sum_list (take (Suc 75) (discharge x)) / DISCHARGE_EFFICIENCY lp_OptimizationConfig"
    by (rule lp_soc_telescope [OF f]) (simp add: night_length)
  moreover have "sum_list (charge_pv x) = 0" using p by (rule sum_list_all_zero)
  ultimately have "soc_var x ! 75 =
      0.95 * sum_list (charge_grid x) - sum_list (discharge x) / 0.95"
    by (simp add: l lp_OptimizationConfig_def)
  with b [of 75] show "0.95 * sum_list (charge_grid x) - sum_list (discharge x) / 0.95 \<le> 4000"
    by simp
  from f have eb: "\<And>t. t < 76 \<Longrightarrow> export_battery x ! t = discharge x ! t * 0.95"
    by (simp add: lp_feasible_def Battery_Export_def night_length lp_OptimizationConfig_def)
  have sd: "(\<Sum>t\<leftarrow>[0..<76]. discharge x ! t) = sum_list (discharge x)"
    using map_nth [of "discharge x"] by (simp add: l)
  have sg: "(\<Sum>t\<leftarrow>[0..<76]. charge_grid x ! t) = sum_list (charge_grid x)"
    using map_nth [of "charge_grid x"] by (simp add: l)
  have "(\<Sum>t\<leftarrow>[0..<76]. (export_pv x ! t + export_battery x ! t)
              * RRP (negative_price_night ! t) / 1000) =
           (\<Sum>t\<leftarrow>[0..<76]. (- 0.00475) * (discharge x ! t))"
    by (rule arg_cong [where f = sum_list], rule map_cong [OF refl])
       (simp add: b eb night_row)
  also have "\<dots> = (- 0.00475) * (\<Sum>t\<leftarrow>[0..<76]. discharge x ! t)"
    by (rule sum_list_const_mult)
  finally have r: "(\<Sum>t\<leftarrow>[0..<76]. (export_pv x ! t + export_battery x ! t)
              * RRP (negative_price_night ! t) / 1000) = (- 0.00475) * sum_list (discharge x)"
    by (simp only: sd)
  have "(\<Sum>t\<leftarrow>[0..<76]. charge_grid x ! t * RRP (negative_price_night ! t) / 1000) =
           (\<Sum>t\<leftarrow>[0..<76]. (- 0.005) * (charge_grid x ! t))"
    by (rule arg_cong [where f = sum_list], rule map_cong [OF refl])
       (simp add: night_row)
  also have "\<dots> = (- 0.005) * (\<Sum>t\<leftarrow>[0..<76]. charge_grid x ! t)"
    by (rule sum_list_const_mult)
  finally have c: "(\<Sum>t\<leftarrow>[0..<76]. charge_grid x ! t * RRP (negative_price_night ! t) / 1000)
      = (- 0.005) * sum_list (charge_grid x)"
    by (simp only: sg)
  show "Total_Revenue negative_price_night x =
           0.005 * (sum_list (charge_grid x) - 0.95 * sum_list (discharge x))"
    unfolding Total_Revenue_def night_length r c by simp
qed


lemma burn_nth:
  assumes "t < 76"
  shows "charge_grid burn_solution ! t = 335 / 6" "charge_pv burn_solution ! t = 0"
    "export_pv burn_solution ! t = 0" "curtail burn_solution ! t = 0"
    "discharge burn_solution ! t = (if t = 75 then 3553 / 120 else 0)"
    "export_battery burn_solution ! t = (if t = 75 then 0.95 * (3553 / 120) else 0)"
    "soc_var burn_solution ! t = (if t = 75 then 4000 else 0.95 * (335 / 6) * real (t + 1))"
  using assms by (auto simp: burn_solution_def nth_append)

lemma burn_feasible: "lp_feasible lp_OptimizationConfig negative_price_night burn_solution"
proof -
  have len: "lp_variable_bounds lp_OptimizationConfig negative_price_night burn_solution"
    unfolding lp_variable_bounds_def night_length
  proof (intro conjI allI impI)
    fix t :: nat assume t: "t < 76"
    then have "real t \<le> 75" by simp
    then show "soc_var burn_solution ! t \<le> BATTERY_CAPACITY lp_OptimizationConfig"
      "0 \<le> soc_var burn_solution ! t"
      using t by (simp_all add: burn_nth lp_OptimizationConfig_def)
  qed (simp_all add: burn_nth night_row lp_OptimizationConfig_def, simp_all add: burn_solution_def)
  have soc: "SOC_constr lp_OptimizationConfig 76 burn_solution"
    unfolding SOC_constr_def
  proof (intro allI impI)
    fix t :: nat assume t: "t < 76"
    show "if t = 0
      then soc_var burn_solution ! t =
           (charge_pv burn_solution ! t + charge_grid burn_solution ! t)
             * CHARGE_EFFICIENCY lp_OptimizationConfig
           - discharge burn_solution ! t / DISCHARGE_EFFICIENCY lp_OptimizationConfig
      else soc_var burn_solution ! t =
           soc_var burn_solution ! (t - 1)
           + (charge_pv burn_solution ! t + charge_grid burn_solution ! t)
               * CHARGE_EFFICIENCY lp_OptimizationConfig
           - discharge burn_solution ! t / DISCHARGE_EFFICIENCY lp_OptimizationConfig"
    proof (cases "t = 0")
      case True
      then show ?thesis by (simp add: burn_nth lp_OptimizationConfig_def)
    next
      case False
      then obtain k where k: "t = Suc k" by (cases t) auto
      with t have k76: "k < 76" by simp
      show ?thesis
      proof (cases "t = 75")
        case True
        with k have "k = 74" by simp
        with True show ?thesis
          by (simp add: burn_nth lp_OptimizationConfig_def)
      next
        case False
        with k have "k \<noteq> 75" using t by simp
        with False k t k76 show ?thesis
          by (simp add: burn_nth lp_OptimizationConfig_def algebra_simps)
      qed
    qed
  qed
  show ?thesis
    unfolding lp_feasible_def
    using len soc
    by (simp add: night_length PV_Balance_def Battery_Export_def NEL_Limit_def LGC_constr_def
        burn_nth night_row lp_OptimizationConfig_def)
       (simp add: negative_price_night_def lp_load_def)
qed

lemma burn_revenue:
  "Total_Revenue negative_price_night burn_solution = 0.005 * (12730 / 3 - 0.95 * (3553 / 120))"
proof -
  have "sum_list (charge_grid burn_solution) = 12730 / 3"
    "sum_list (discharge burn_solution) = 3553 / 120"
    by (simp_all add: burn_solution_def sum_list_replicate)
  with night_facts(8) [OF burn_feasible] show ?thesis by simp
qed

lemma burn_optimal: "lp_optimal lp_OptimizationConfig negative_price_night burn_solution"
  unfolding lp_optimal_def
proof (intro conjI allI impI)
  show "lp_feasible lp_OptimizationConfig negative_price_night burn_solution"
    by (rule burn_feasible)
next
  fix y assume f: "lp_feasible lp_OptimizationConfig negative_price_night y"
  note n = night_facts [OF f]
  have "sum_list (charge_grid y) \<le> real (length (charge_grid y)) * (335 / 6)"
    using n(4) by (intro sum_list_upper) simp
  then have s: "sum_list (charge_grid y) \<le> 12730 / 3" by (simp add: n(1))
  from n(7) have d: "0.95 * (0.95 * sum_list (charge_grid y) - 4000) \<le> sum_list (discharge y)"
    by simp
  from s d show "Total_Revenue negative_price_night y
      \<le> Total_Revenue negative_price_night burn_solution"
    unfolding n(8) burn_revenue by simp
qed

lemma night_optimum_not_exclusive:
  assumes o: "lp_optimal lp_OptimizationConfig negative_price_night x"
  shows "\<exists>t<76. 0 < charge_pv x ! t + charge_grid x ! t \<and> 0 < discharge x ! t"
proof (rule ccontr)
  assume c: "\<not> (\<exists>t<76. 0 < charge_pv x ! t + charge_grid x ! t \<and> 0 < discharge x ! t)"
  from o have f: "lp_feasible lp_OptimizationConfig negative_price_night x"
    by (simp add: lp_optimal_def)
  note n = night_facts [OF f]
  from o burn_feasible have ge: "Total_Revenue negative_price_night burn_solution
      \<le> Total_Revenue negative_price_night x"
    by (simp add: lp_optimal_def)
  have dn: "0 \<le> sum_list (discharge x)"
    using n(5) by (intro sum_list_nonneg) simp
  have nn: "\<And>t. t < 76 \<Longrightarrow> 0 \<le> charge_grid x ! t \<and> 0 \<le> discharge x ! t \<and> charge_pv x ! t = 0"
    using n(1,2,3,4,5,6) by (auto simp: all_set_conv_all_nth)
  show False
  proof (cases "\<forall>v\<in>set (discharge x). v = 0")
    case True
    then have "sum_list (discharge x) = 0" by (rule sum_list_all_zero)
    with n(7) have "sum_list (charge_grid x) \<le> 4000 / 0.95" by simp
    with ge \<open>sum_list (discharge x) = 0\<close> show False
      unfolding n(8) burn_revenue by simp
  next
    case False
    then obtain t where t: "t < 76" "discharge x ! t \<noteq> 0"
      using n(2) by (auto simp: in_set_conv_nth)
    with nn [OF t(1)] have "0 < discharge x ! t" by simp
    with c t(1) have "\<not> 0 < charge_pv x ! t + charge_grid x ! t" by blast
    with nn [OF t(1)] have z: "charge_grid x ! t = 0" by simp
    have "sum_list (charge_grid x) \<le> (real (length (charge_grid x)) - 1) * (335 / 6)"
      using n(4) t(1) z by (intro sum_list_upper_with_zero [where t = t]) (simp_all add: n(1))
    then have "sum_list (charge_grid x) \<le> 75 * (335 / 6)" by (simp add: n(1))
    with ge dn show False
      unfolding n(8) burn_revenue by simp
  qed
qed

section \<open>Lemmas on the day-partitioned scheduler\<close>

lemma charge_step_bounds:
  assumes cfg: "sane_config cfg" and soc: "0 \<le> soc" "soc \<le> BATTERY_CAPACITY cfg"
    and pv: "0 \<le> PV_Energy_kWh row"
    and st: "charge_step cfg soc row = (r, soc1)"
  shows "0 \<le> soc1 \<and> soc1 \<le> BATTERY_CAPACITY cfg \<and> SOC_kWh r = soc1"
proof -
  define ce where "ce = CHARGE_EFFICIENCY cfg"
  define av where "av = BATTERY_CAPACITY cfg - soc"
  define mcp where "mcp = BATTERY_MAX_CHARGE_POWER cfg * INTERVAL_HOURS cfg"
  define cfp where "cfp = min (PV_Energy_kWh row) (min mcp (av / ce))"
  define rc where "rc = av - cfp * ce"
  define cg where "cg = (if 0.01 < rc \<and> 0.01 < mcp - cfp then
        min (NIL cfg * INTERVAL_HOURS cfg) (min (mcp - cfp) (rc / ce)) else 0)"
  from cfg have ce: "0 < ce" and mcp: "0 \<le> mcp" and nil: "0 \<le> NIL cfg * INTERVAL_HOURS cfg"
    by (simp_all add: sane_config_def ce_def mcp_def)
  from soc have av: "0 \<le> av" by (simp add: av_def)
  have cfp0: "0 \<le> cfp" using pv mcp av ce by (simp add: cfp_def)
  have "cfp \<le> av / ce" by (simp add: cfp_def)
  then have cfp1: "cfp * ce \<le> av" using ce by (simp add: pos_le_divide_eq)
  then have rc0: "0 \<le> rc" by (simp add: rc_def)
  have cg0: "0 \<le> cg" using nil ce by (auto simp: cg_def min_def)
  have "cg \<le> rc / ce" using rc0 ce by (auto simp: cg_def min_def)
  then have cg1: "cg * ce \<le> rc" using ce by (simp add: pos_le_divide_eq)
  have "snd (charge_step cfg soc row) = soc + (cfp + cg) * ce"
    "SOC_kWh (fst (charge_step cfg soc row)) = snd (charge_step cfg soc row)"
    unfolding charge_step_def Let_def ce_def av_def mcp_def cfp_def rc_def cg_def
    by (simp_all split: prod.split)
  with st have s1: "soc1 = soc + (cfp + cg) * ce" and r: "SOC_kWh r = soc1"
    by simp_all
  have "0 \<le> (cfp + cg) * ce" using cfp0 cg0 ce by simp
  moreover have "(cfp + cg) * ce \<le> av" using cfp1 cg1 by (simp add: rc_def algebra_simps)
  ultimately show ?thesis using soc r by (simp add: s1 av_def)
qed

lemma charge_loop_bounds:
  assumes cfg: "sane_config cfg" and pv: "\<forall>row\<in>set rows. 0 \<le> PV_Energy_kWh row"
  shows "0 \<le> soc \<Longrightarrow> soc \<le> BATTERY_CAPACITY cfg \<Longrightarrow> charge_loop cfg soc rows = (rs, soc2) \<Longrightarrow>
    0 \<le> soc2 \<and> soc2 \<le> BATTERY_CAPACITY cfg \<and>
    (\<forall>r\<in>set rs. 0 \<le> SOC_kWh r \<and> SOC_kWh r \<le> BATTERY_CAPACITY cfg)"
  using pv
proof (induction rows arbitrary: soc rs soc2)
  case Nil
  then show ?case by simp
next
  case (Cons row rows)
  show ?case
  proof (cases "BATTERY_CAPACITY cfg * 0.999 \<le> soc")
    case True
    with Cons.prems show ?thesis by simp
  next
    case False
    obtain r soc1 where st: "charge_step cfg soc row = (r, soc1)"
      by (cases "charge_step cfg soc row") auto
    obtain rs' soc' where lp: "charge_loop cfg soc1 rows = (rs', soc')"
      by (cases "charge_loop cfg soc1 rows") auto
    from Cons.prems(4) have pvr: "0 \<le> PV_Energy_kWh row" by simp
    from charge_step_bounds [OF cfg Cons.prems(1,2) pvr st]
    have b: "0 \<le> soc1" "soc1 \<le> BATTERY_CAPACITY cfg" "SOC_kWh r = soc1" by simp_all
    from Cons.prems(4) have "\<forall>row\<in>set rows. 0 \<le> PV_Energy_kWh row" by simp
    from Cons.IH [OF b(1,2) lp this] Cons.prems(3) False st lp b
    show ?thesis by auto
  qed
qed

lemma discharge_step_empty:
  "soc \<le> 0.01 \<Longrightarrow>
   snd (discharge_step cfg soc row) = soc \<and> SOC_kWh (fst (discharge_step cfg soc row)) = 0"
  by (simp add: discharge_step_def split: prod.split)

lemma discharge_step_price_too_low:
  "\<not> soc \<le> 0.01 \<Longrightarrow> RRP_MWh row \<le> LGC cfg \<Longrightarrow>
   snd (discharge_step cfg soc row) = soc \<and> SOC_kWh (fst (discharge_step cfg soc row)) = soc"
  by (simp add: discharge_step_def)

lemma discharge_step_discharging:
  assumes "\<not> soc \<le> 0.01" and "\<not> RRP_MWh row \<le> LGC cfg"
  shows "SOC_kWh (fst (discharge_step cfg soc row)) = snd (discharge_step cfg soc row) \<and>
    snd (discharge_step cfg soc row) =
      max 0 (soc -
        (if Is_Daytime row then
           if NEL cfg \<le> PV_Power_kW row then 0
           else min (min (BATTERY_MAX_DISCHARGE_POWER cfg) (NEL cfg - PV_Power_kW row)
                       * INTERVAL_HOURS cfg)
                  (soc * DISCHARGE_EFFICIENCY cfg / DISCHARGE_EFFICIENCY cfg)
         else min (BATTERY_MAX_DISCHARGE_POWER cfg * INTERVAL_HOURS cfg)
                (soc * DISCHARGE_EFFICIENCY cfg / DISCHARGE_EFFICIENCY cfg))
        / DISCHARGE_EFFICIENCY cfg)"
  using assms by (simp add: discharge_step_def Let_def)

lemma discharge_step_bounds:
  assumes cfg: "sane_config cfg" and soc: "0 \<le> soc" "soc \<le> BATTERY_CAPACITY cfg"
    and st: "discharge_step cfg soc row = (r, soc1)"
  shows "0 \<le> soc1 \<and> soc1 \<le> BATTERY_CAPACITY cfg \<and>
         0 \<le> SOC_kWh r \<and> SOC_kWh r \<le> BATTERY_CAPACITY cfg"
proof -
  from cfg have de: "0 < DISCHARGE_EFFICIENCY cfg" and ih: "0 \<le> INTERVAL_HOURS cfg"
    and md: "0 \<le> BATTERY_MAX_DISCHARGE_POWER cfg" and cap: "0 \<le> BATTERY_CAPACITY cfg"
    by (simp_all add: sane_config_def)
  from st have fs: "fst (discharge_step cfg soc row) = r" "snd (discharge_step cfg soc row) = soc1"
    by simp_all
  consider "soc \<le> 0.01" | "\<not> soc \<le> 0.01" "RRP_MWh row \<le> LGC cfg"
    | "\<not> soc \<le> 0.01" "\<not> RRP_MWh row \<le> LGC cfg" by blast
  then show ?thesis
  proof cases
    case 1
    from discharge_step_empty [OF 1, of cfg row] soc cap show ?thesis by (simp add: fs)
  next
    case 2
    from discharge_step_price_too_low [OF 2] soc show ?thesis by (simp add: fs)
  next
    case 3
    define m where "m = (if Is_Daytime row then
           if NEL cfg \<le> PV_Power_kW row then 0
           else min (min (BATTERY_MAX_DISCHARGE_POWER cfg) (NEL cfg - PV_Power_kW row)
                       * INTERVAL_HOURS cfg)
                  (soc * DISCHARGE_EFFICIENCY cfg / DISCHARGE_EFFICIENCY cfg)
         else min (BATTERY_MAX_DISCHARGE_POWER cfg * INTERVAL_HOURS cfg)
                (soc * DISCHARGE_EFFICIENCY cfg / DISCHARGE_EFFICIENCY cfg))"
    have "0 \<le> m"
      using md ih soc de by (simp add: m_def)
    then have q: "0 \<le> m / DISCHARGE_EFFICIENCY cfg" using de by simp
    from discharge_step_discharging [OF 3]
    have "SOC_kWh r = soc1" "soc1 = max 0 (soc - m / DISCHARGE_EFFICIENCY cfg)"
      by (simp_all add: fs m_def)
    with q soc show ?thesis by simp
  qed
qed

lemma discharge_loop_bounds:
  assumes cfg: "sane_config cfg"
  shows "0 \<le> soc \<Longrightarrow> soc \<le> BATTERY_CAPACITY cfg \<Longrightarrow>
    discharge_loop cfg soc rows = (rs, soc2) \<Longrightarrow>
    0 \<le> soc2 \<and> soc2 \<le> BATTERY_CAPACITY cfg \<and>
    (\<forall>r\<in>set rs. 0 \<le> SOC_kWh r \<and> SOC_kWh r \<le> BATTERY_CAPACITY cfg)"
proof (induction rows arbitrary: soc rs soc2)
  case Nil
  then show ?case by simp
next
  case (Cons row rows)
  obtain r soc1 where st: "discharge_step cfg soc row = (r, soc1)"
    by (cases "discharge_step cfg soc row") auto
  obtain rs' soc' where lp: "discharge_loop cfg soc1 rows = (rs', soc')"
    by (cases "discharge_loop cfg soc1 rows") auto
  from discharge_step_bounds [OF cfg Cons.prems(1,2) st]
  have b: "0 \<le> soc1" "soc1 \<le> BATTERY_CAPACITY cfg"
    "0 \<le> SOC_kWh r" "SOC_kWh r \<le> BATTERY_CAPACITY cfg" by simp_all
  from Cons.IH [OF b(1,2) lp] Cons.prems(3) st lp b
  show ?case by auto
qed

lemma idle_result_SOC: "SOC_kWh (idle_result cfg soc row) = soc"
  by (simp add: idle_result_def split: prod.split)

lemma sorts_by_key_set:
  assumes "sorts_by_key srt"
  shows "set (srt key xs) = set xs"
proof -
  from assms have "mset (srt key xs) = mset xs" by (simp add: sorts_by_key_def)
  then show ?thesis by (rule mset_eq_setD)
qed

lemma sort_key_sorts_by_key: "sorts_by_key sort_key"
  by (simp add: sorts_by_key_def)

lemma filter_same_key:
  "distinct (map key xs) \<Longrightarrow> k \<in> set xs \<Longrightarrow> filter (\<lambda>x. key k = key x) xs = [k]"
proof (induction xs)
  case Nil
  then show ?case by simp
next
  case (Cons a xs)
  show ?case
  proof (cases "k = a")
    case True
    from Cons.prems(1) have "\<forall>x\<in>set xs. key a \<noteq> key x" by auto
    then have "filter (\<lambda>x. key a = key x) xs = []" by (simp add: filter_empty_conv)
    with True show ?thesis by simp
  next
    case False
    with Cons.prems have k: "k \<in> set xs" and d: "distinct (map key xs)" by simp_all
    from Cons.prems(1) have "key a \<notin> key ` set xs" by simp
    with k have "key k \<noteq> key a" by (metis imageI)
    with Cons.IH [OF d k] show ?thesis by simp
  qed
qed

text \<open>With keys that are all different the order is determined: every sort gives the rows in
  the order of \<open>sort_key\<close>.\<close>

lemma sorts_by_key_distinct:
  assumes srt: "sorts_by_key srt" and d: "distinct (map key xs)"
  shows "srt key xs = sort_key key xs"
proof -
  from srt have m: "mset (srt key xs) = mset xs" and s: "sorted (map key (srt key xs))"
    by (simp_all add: sorts_by_key_def)
  from m have "mset (map key (srt key xs)) = mset (map key xs)" by simp
  with d have d': "distinct (map key (srt key xs))"
    by (metis mset_eq_imp_distinct_iff)
  have "sort_key key xs = srt key xs"
  proof (rule properties_for_sort_key [OF m _ s])
    fix k assume k: "k \<in> set (srt key xs)"
    then have k': "k \<in> set xs" using sorts_by_key_set [OF srt] by simp
    from filter_same_key [OF d' k] filter_same_key [OF d k']
    show "filter (\<lambda>x. key k = key x) (srt key xs) = filter (\<lambda>x. key k = key x) xs" by simp
  qed
  then show ?thesis by simp
qed

lemma optimize_daily_bounds:
  assumes srt: "sorts_by_key srt" and cfg: "sane_config cfg" and soc: "0 \<le> soc" "soc \<le> BATTERY_CAPACITY cfg"
    and pv: "\<forall>row\<in>set day_data. 0 \<le> PV_Energy_kWh row"
    and od: "optimize_daily srt cfg day_data next_day_data soc = (rs, soc_end)"
  shows "0 \<le> soc_end \<and> soc_end \<le> BATTERY_CAPACITY cfg \<and>
    (\<forall>r\<in>set rs. 0 \<le> SOC_kWh r \<and> SOC_kWh r \<le> BATTERY_CAPACITY cfg)"
proof -
  define chargeable where "chargeable = filter Can_Charge day_data"
  obtain charged soc1 where c: "(if chargeable \<noteq> [] \<and> soc < BATTERY_CAPACITY cfg
             then charge_loop cfg soc (srt RRP_MWh chargeable)
             else ([], soc)) = (charged, soc1)"
    by (cases "if chargeable \<noteq> [] \<and> soc < BATTERY_CAPACITY cfg
             then charge_loop cfg soc (srt RRP_MWh chargeable)
             else ([], soc)") auto
  define candidates where
    "candidates = discharge_candidates day_data next_day_data (map index_r charged)"
  obtain discharged soc2 where d: "(if candidates \<noteq> [] \<and> 0.01 < soc1
             then discharge_loop cfg soc1 (srt (\<lambda>r. - RRP_MWh r) candidates)
             else ([], soc1)) = (discharged, soc2)"
    by (cases "if candidates \<noteq> [] \<and> 0.01 < soc1
             then discharge_loop cfg soc1 (srt (\<lambda>r. - RRP_MWh r) candidates)
             else ([], soc1)") auto
  have pvc: "\<forall>row\<in>set (srt RRP_MWh chargeable). 0 \<le> PV_Energy_kWh row"
    using pv sorts_by_key_set [OF srt] by (simp add: chargeable_def)
  have b1: "0 \<le> soc1 \<and> soc1 \<le> BATTERY_CAPACITY cfg \<and>
    (\<forall>r\<in>set charged. 0 \<le> SOC_kWh r \<and> SOC_kWh r \<le> BATTERY_CAPACITY cfg)"
  proof (cases "chargeable \<noteq> [] \<and> soc < BATTERY_CAPACITY cfg")
    case True
    with c have "charge_loop cfg soc (srt RRP_MWh chargeable) = (charged, soc1)" by simp
    from charge_loop_bounds [OF cfg pvc soc this] show ?thesis .
  next
    case False
    with c soc show ?thesis by auto
  qed
  have b2: "0 \<le> soc2 \<and> soc2 \<le> BATTERY_CAPACITY cfg \<and>
    (\<forall>r\<in>set discharged. 0 \<le> SOC_kWh r \<and> SOC_kWh r \<le> BATTERY_CAPACITY cfg)"
  proof (cases "candidates \<noteq> [] \<and> 0.01 < soc1")
    case True
    with d have "discharge_loop cfg soc1 (srt (\<lambda>r. - RRP_MWh r) candidates)
        = (discharged, soc2)" by simp
    from discharge_loop_bounds [OF cfg _ _ this] b1 show ?thesis by simp
  next
    case False
    with d b1 show ?thesis by auto
  qed
  from od have "rs = charged @ discharged
      @ map (idle_result cfg soc2)
          (filter (\<lambda>r. idx r \<notin> set (map index_r (charged @ discharged))) day_data)"
    and "soc_end = soc2"
    unfolding optimize_daily_def Let_def chargeable_def [symmetric] c split_conv
      candidates_def [symmetric] d
    by auto
  with b1 b2 show ?thesis by (auto simp: idle_result_SOC)
qed

lemma merge_day_bounds:
  assumes "\<forall>r\<in>set rs. 0 \<le> SOC_kWh r \<and> SOC_kWh r \<le> c" and "0 \<le> soc" "soc \<le> c"
    and "r \<in> set (merge_day day_data rs soc)"
  shows "0 \<le> SOC_kWh r \<and> SOC_kWh r \<le> c"
proof -
  from assms(4) obtain row where "r = (case find (\<lambda>r. index_r r = idx row) rs of
                  Some r \<Rightarrow> r | None \<Rightarrow> error_result soc row)"
    by (auto simp: merge_day_def)
  then show ?thesis
    using assms(1,2,3)
    by (auto simp: error_result_def find_Some_iff split: option.splits)
qed

lemma run_days_bounds:
  assumes srt: "sorts_by_key srt" and cfg: "sane_config cfg"
  shows "0 \<le> soc \<Longrightarrow> soc \<le> BATTERY_CAPACITY cfg \<Longrightarrow>
    \<forall>day\<in>set days. \<forall>row\<in>set day. 0 \<le> PV_Energy_kWh row \<Longrightarrow>
    r \<in> set (run_days srt cfg soc days) \<Longrightarrow>
    0 \<le> SOC_kWh r \<and> SOC_kWh r \<le> BATTERY_CAPACITY cfg"
proof (induction days arbitrary: soc)
  case Nil
  then show ?case by simp
next
  case (Cons day days)
  obtain rs soc_end where od:
    "optimize_daily srt cfg day (case days of [] \<Rightarrow> [] | d # _ \<Rightarrow> d) soc = (rs, soc_end)"
    by (cases "optimize_daily srt cfg day (case days of [] \<Rightarrow> [] | d # _ \<Rightarrow> d) soc") auto
  from Cons.prems(3) have pv: "\<forall>row\<in>set day. 0 \<le> PV_Energy_kWh row"
    and pvs: "\<forall>day\<in>set days. \<forall>row\<in>set day. 0 \<le> PV_Energy_kWh row" by simp_all
  from optimize_daily_bounds [OF srt cfg Cons.prems(1,2) pv od]
  have b: "0 \<le> soc_end" "soc_end \<le> BATTERY_CAPACITY cfg"
    "\<forall>r\<in>set rs. 0 \<le> SOC_kWh r \<and> SOC_kWh r \<le> BATTERY_CAPACITY cfg" by simp_all
  from Cons.prems(4) od have "r \<in> set (merge_day day rs soc) \<or> r \<in> set (run_days srt cfg soc_end days)"
    by simp
  then show ?case
  proof
    assume "r \<in> set (merge_day day rs soc)"
    from merge_day_bounds [OF b(3) Cons.prems(1,2) this] show ?thesis .
  next
    assume "r \<in> set (run_days srt cfg soc_end days)"
    from Cons.IH [OF b(1,2) pvs this] show ?thesis .
  qed
qed

lemma run_v2_bounds:
  assumes srt: "sorts_by_key srt" and "sane_config cfg" and "\<forall>day\<in>set days. \<forall>row\<in>set day. 0 \<le> PV_Energy_kWh row"
    and "r \<in> set (run_v2 srt cfg days)"
  shows "0 \<le> SOC_kWh r \<and> SOC_kWh r \<le> BATTERY_CAPACITY cfg"
proof -
  from assms(2) have "0 \<le> BATTERY_CAPACITY cfg" by (simp add: sane_config_def)
  then have "0 \<le> BATTERY_CAPACITY cfg * 0.5" "BATTERY_CAPACITY cfg * 0.5 \<le> BATTERY_CAPACITY cfg"
    by simp_all
  from run_days_bounds [OF srt assms(2) this assms(3)] assms(4) show ?thesis
    by (simp add: run_v2_def)
qed

lemma length_merge_day: "length (merge_day day_data rs soc) = length day_data"
  by (simp add: merge_day_def)

lemma length_run_days: "length (run_days srt cfg soc days) = length (concat days)"
  by (induction days arbitrary: soc) (auto simp: length_merge_day split: prod.splits)

lemma two_sunny_periods_sorted:
  assumes "sorts_by_key srt"
  shows "srt RRP_MWh (filter Can_Charge (hd two_sunny_periods)) =
     [v2_row_of v2_OptimizationConfig 1 500 10 50 600,
      v2_row_of v2_OptimizationConfig 0 500 50 50 600]"
proof -
  have "distinct (map RRP_MWh (filter Can_Charge (hd two_sunny_periods)))"
    by (simp add: two_sunny_periods_def v2_row_of_def v2_OptimizationConfig_def)
  from sorts_by_key_distinct [OF assms this] show ?thesis
    by (simp add: two_sunny_periods_def v2_row_of_def v2_OptimizationConfig_def)
qed

lemma two_sunny_periods_run:
  assumes "sorts_by_key srt"
  shows "run_v2 srt v2_OptimizationConfig two_sunny_periods =
     [\<lparr> index_r = 0, Charge_PV_kWh = 50, Charge_Grid_kWh = 335 / 6, Discharge_kWh = 0,
        Export_PV_kWh = 0, Export_Battery_kWh = 0, Curtail_kWh = 0,
        SOC_kWh = 2752 + 2 * ((50 + 335 / 6) * 0.95), Action = ''Charging'' \<rparr>,
      \<lparr> index_r = 1, Charge_PV_kWh = 50, Charge_Grid_kWh = 335 / 6, Discharge_kWh = 0,
        Export_PV_kWh = 0, Export_Battery_kWh = 0, Curtail_kWh = 0,
        SOC_kWh = 2752 + (50 + 335 / 6) * 0.95, Action = ''Charging'' \<rparr>]"
proof -
  have h: "two_sunny_periods = [hd two_sunny_periods]"
    by (simp add: two_sunny_periods_def)
  have d: "hd two_sunny_periods =
      [v2_row_of v2_OptimizationConfig 0 500 50 50 600,
       v2_row_of v2_OptimizationConfig 1 500 10 50 600]"
    by (simp add: two_sunny_periods_def)
  have "run_v2 srt v2_OptimizationConfig [hd two_sunny_periods] =
     [\<lparr> index_r = 0, Charge_PV_kWh = 50, Charge_Grid_kWh = 335 / 6, Discharge_kWh = 0,
        Export_PV_kWh = 0, Export_Battery_kWh = 0, Curtail_kWh = 0,
        SOC_kWh = 2752 + 2 * ((50 + 335 / 6) * 0.95), Action = ''Charging'' \<rparr>,
      \<lparr> index_r = 1, Charge_PV_kWh = 50, Charge_Grid_kWh = 335 / 6, Discharge_kWh = 0,
        Export_PV_kWh = 0, Export_Battery_kWh = 0, Curtail_kWh = 0,
        SOC_kWh = 2752 + (50 + 335 / 6) * 0.95, Action = ''Charging'' \<rparr>]"
    unfolding run_v2_def run_days.simps optimize_daily_def Let_def
      two_sunny_periods_sorted [OF assms]
    by (simp add: d v2_row_of_def v2_OptimizationConfig_def
        discharge_candidates_def charge_step_def pv_only_def merge_day_def
        idle_result_def Let_def)
  with h show ?thesis by simp
qed

lemma charge_step_recurrence:
  "snd (charge_step cfg soc row) =
     soc + (Charge_PV_kWh (fst (charge_step cfg soc row))
            + Charge_Grid_kWh (fst (charge_step cfg soc row))) * CHARGE_EFFICIENCY cfg"
  unfolding charge_step_def Let_def
  by (simp only: split_def fst_conv snd_conv v2_result.simps)

lemma discharge_step_recurrence:
  assumes "0 \<le> soc"
  shows "snd (discharge_step cfg soc row) =
     max 0 (soc - Discharge_kWh (fst (discharge_step cfg soc row)) / DISCHARGE_EFFICIENCY cfg)"
proof (cases "soc \<le> 0.01")
  case True
  with assms show ?thesis by (simp add: discharge_step_def split: prod.split)
next
  case False
  note hi = this
  show ?thesis
  proof (cases "RRP_MWh row \<le> LGC cfg")
    case True
    with hi assms show ?thesis by (simp add: discharge_step_def)
  next
    case False
    note pr = this
    show ?thesis
    proof (cases "Is_Daytime row")
      case True
      note dy = this
      show ?thesis
      proof (cases "NEL cfg \<le> PV_Power_kW row")
        case True
        with hi pr dy show ?thesis by (simp add: discharge_step_def Let_def)
      next
        case False
        with hi pr dy show ?thesis by (simp add: discharge_step_def Let_def)
      qed
    next
      case False
      with hi pr show ?thesis by (simp add: discharge_step_def Let_def)
    qed
  qed
qed

section \<open>Lemmas on negative generation\<close>

lemma optimize_greedy_period:
  assumes "t < length data"
  shows "pv_power (optimize_greedy cfg data ! t) = pv_power (data ! t)"
  using greedy_loop_period [OF assms] by (simp add: optimize_greedy_def)

lemma lp_load_row:
  assumes "i < length rows"
  shows "PV_Energy_kWh (lp_load cfg rows ! i) =
     fst (rows ! i) * PV_CAPACITY cfg * POA_TO_POWER_RATIO cfg / 1000 * INTERVAL_HOURS cfg"
  using assms by (simp add: lp_load_def split_beta)

lemma lp_negative_energy_infeasible:
  assumes t: "t < length data" and n: "PV_Energy_kWh (data ! t) < 0"
  shows "\<not> lp_feasible cfg data x"
proof
  assume "lp_feasible cfg data x"
  then have "lp_variable_bounds cfg data x" by (simp add: lp_feasible_def)
  with t have "0 \<le> charge_pv x ! t" "charge_pv x ! t \<le> PV_Energy_kWh (data ! t)"
    by (simp_all add: lp_variable_bounds_def)
  with n show False by linarith
qed

section \<open>Energy balance of the greedy scheduler\<close>

text \<open>
  Claim C1. In every period of a schedule, generation plus discharge plus grid import equals
  charge plus grid export plus curtailed power. The run below, with a ramp limit of 1.5 kW,
  is a period of the greedy scheduler in which the sources sum to 1.895 kW and charge plus
  export to 3.395 kW: the ramp clamp raises the export above what is left of the generation
  after charging, and no non-negative curtailment closes the balance.
\<close>

theorem greedy_energy_balance_fails:
  "pv_power (optimize_greedy slow_ramp_optimizer three_periods_charging ! 2)
     + P_discharge (optimize_greedy slow_ramp_optimizer three_periods_charging ! 2)
     + P_grid_import (optimize_greedy slow_ramp_optimizer three_periods_charging ! 2) = 1.895 \<and>
   P_charge (optimize_greedy slow_ramp_optimizer three_periods_charging ! 2)
     + P_grid_export (optimize_greedy slow_ramp_optimizer three_periods_charging ! 2) = 3.395 \<and>
   pv_power (optimize_greedy slow_ramp_optimizer three_periods_charging ! 2)
     + P_discharge (optimize_greedy slow_ramp_optimizer three_periods_charging ! 2)
     + P_grid_import (optimize_greedy slow_ramp_optimizer three_periods_charging ! 2)
   < P_charge (optimize_greedy slow_ramp_optimizer three_periods_charging ! 2)
     + P_grid_export (optimize_greedy slow_ramp_optimizer three_periods_charging ! 2)"
  by (simp add: three_periods_charging_greedy)

section \<open>The recurrence of the state of charge\<close>

text \<open>
  Claim C2, as stated, fails for the day-partitioned scheduler, which serves the periods of a
  day in the order of their price and writes the state of charge it has reached into each
  row. In the run below both periods charge and none discharges, yet the state of charge
  written for the second period is below that written for the first. The two prices differ,
  so that every sort serves the periods in this order.
\<close>

theorem day_partitioned_soc_out_of_order:
  "0 < Charge_PV_kWh (run_v2 sort_key v2_OptimizationConfig two_sunny_periods ! 1)
       + Charge_Grid_kWh (run_v2 sort_key v2_OptimizationConfig two_sunny_periods ! 1) \<and>
   Discharge_kWh (run_v2 sort_key v2_OptimizationConfig two_sunny_periods ! 1) = 0 \<and>
   SOC_kWh (run_v2 sort_key v2_OptimizationConfig two_sunny_periods ! 1)
     < SOC_kWh (run_v2 sort_key v2_OptimizationConfig two_sunny_periods ! 0)"
  by (simp add: two_sunny_periods_run [OF sort_key_sorts_by_key])

text \<open>
  Claim C2, amended. For the mixed-integer program, the linear program and the sequential
  greedy scheduler the state of charge starts at the initial value and every later value is
  the previous one plus the charged energy times the charging efficiency minus the
  discharged energy over the discharging efficiency; the greedy scheduler clips the result to
  the capacity range. The values are, for the mixed-integer program, the variables
  \<^verbatim>\<open>SOC[0..n]\<close>, with \<^verbatim>\<open>SOC[0]\<close> the fraction \<open>initial_soc\<close> of the capacity; for the greedy
  scheduler, the values of its running variable, the same initial value and then the \<^verbatim>\<open>SOC\<close>
  column; for the linear program, whose variables are the states at the end of each period
  and whose battery starts empty, zero and then the variables \<^verbatim>\<open>soc[0..n-1]\<close>. The
  day-partitioned scheduler applies the same update at each of its steps, cut off at zero
  after a discharge, but in the order in which it serves the periods.
\<close>

theorem soc_recurrence:
  "(gurobi_feasible cfg data x \<longrightarrow>
      SOC_X x ! 0 = initial_soc cfg * E_capacity cfg \<and>
      (\<forall>t<length data.
         SOC_X x ! (t + 1) =
           SOC_X x ! t + P_charge_X x ! t * dt cfg * eta_c cfg
             - P_discharge_X x ! t * dt cfg / eta_d cfg)) \<and>
   (nonzero_divisors cfg \<longrightarrow>
      soc_values cfg data ! 0 = initial_soc cfg * E_capacity cfg \<and>
      (\<forall>t<length data.
         soc_values cfg data ! (t + 1) =
           clip (soc_values cfg data ! t
                 + P_charge (optimize_greedy cfg data ! t) * dt cfg * eta_c cfg
                 - P_discharge (optimize_greedy cfg data ! t) * dt cfg / eta_d cfg)
             0 (E_capacity cfg))) \<and>
   (lp_feasible lcfg ldata lx \<longrightarrow>
      (0 # soc_var lx) ! 0 = 0 \<and>
      (\<forall>t<length ldata.
         (0 # soc_var lx) ! (t + 1) =
           (0 # soc_var lx) ! t
             + (charge_pv lx ! t + charge_grid lx ! t) * CHARGE_EFFICIENCY lcfg
             - discharge lx ! t / DISCHARGE_EFFICIENCY lcfg)) \<and>
   (sane_config vcfg \<and> 0 \<le> s \<longrightarrow>
      snd (charge_step vcfg s row) =
        s + (Charge_PV_kWh (fst (charge_step vcfg s row))
             + Charge_Grid_kWh (fst (charge_step vcfg s row))) * CHARGE_EFFICIENCY vcfg \<and>
      snd (discharge_step vcfg s row) =
        max 0 (s - Discharge_kWh (fst (discharge_step vcfg s row))
                     / DISCHARGE_EFFICIENCY vcfg))"
proof (intro conjI impI allI)
  show "(0 # soc_var lx) ! 0 = 0" by simp
next
  show "snd (charge_step vcfg s row) =
        s + (Charge_PV_kWh (fst (charge_step vcfg s row))
             + Charge_Grid_kWh (fst (charge_step vcfg s row))) * CHARGE_EFFICIENCY vcfg"
    by (rule charge_step_recurrence)
next
  assume "sane_config vcfg \<and> 0 \<le> s"
  then show "snd (discharge_step vcfg s row) =
        max 0 (s - Discharge_kWh (fst (discharge_step vcfg s row))
                     / DISCHARGE_EFFICIENCY vcfg)"
    by (simp add: discharge_step_recurrence)
next
  fix t
  assume f: "lp_feasible lcfg ldata lx" and t: "t < length ldata"
  then have c: "if t = 0 then
          soc_var lx ! t = (charge_pv lx ! t + charge_grid lx ! t) * CHARGE_EFFICIENCY lcfg
                      - discharge lx ! t / DISCHARGE_EFFICIENCY lcfg
        else
          soc_var lx ! t = soc_var lx ! (t - 1)
                      + (charge_pv lx ! t + charge_grid lx ! t) * CHARGE_EFFICIENCY lcfg
                      - discharge lx ! t / DISCHARGE_EFFICIENCY lcfg"
    by (simp add: lp_feasible_def SOC_constr_def)
  show "(0 # soc_var lx) ! (t + 1) =
           (0 # soc_var lx) ! t
             + (charge_pv lx ! t + charge_grid lx ! t) * CHARGE_EFFICIENCY lcfg
             - discharge lx ! t / DISCHARGE_EFFICIENCY lcfg"
  proof (cases t)
    case 0
    with c show ?thesis by simp
  next
    case (Suc k)
    with c show ?thesis by simp
  qed
next
  assume "gurobi_feasible cfg data x"
  then show "SOC_X x ! 0 = initial_soc cfg * E_capacity cfg"
    by (simp add: gurobi_feasible_def initial_soc_constr_def)
next
  fix t
  assume "gurobi_feasible cfg data x" and "t < length data"
  then show "SOC_X x ! (t + 1) =
           SOC_X x ! t + P_charge_X x ! t * dt cfg * eta_c cfg
             - P_discharge_X x ! t * dt cfg / eta_d cfg"
    by (simp add: gurobi_feasible_def soc_balance_def)
next
  show "soc_values cfg data ! 0 = initial_soc cfg * E_capacity cfg"
    by (simp add: soc_values_def)
next
  fix t
  assume t: "t < length data"
  from greedy_loop_recurrence [OF t]
  show "soc_values cfg data ! (t + 1) =
           clip (soc_values cfg data ! t
                 + P_charge (optimize_greedy cfg data ! t) * dt cfg * eta_c cfg
                 - P_discharge (optimize_greedy cfg data ! t) * dt cfg / eta_d cfg)
             0 (E_capacity cfg)"
    unfolding soc_values_def optimize_greedy_def soc_update_def by simp
qed

theorem soc_recurrence_witness:
  "gurobi_feasible default_optimizer two_periods two_periods_solution \<and>
   nonzero_divisors default_optimizer \<and>
   SOC_X two_periods_solution ! 0 = 500 \<and>
   SOC_X two_periods_solution ! 2 =
     SOC_X two_periods_solution ! 1 + 0 * (5 / 60) * 0.95 - 250 * (5 / 60) / 0.95 \<and>
   soc_values default_optimizer two_periods ! 0 = 500 \<and>
   soc_values default_optimizer two_periods ! 2 =
     clip (soc_values default_optimizer two_periods ! 1 + 0 * (5 / 60) * 0.95
           - 250 * (5 / 60) / 0.95) 0 1000 \<and>
   lp_feasible lp_OptimizationConfig negative_price_night burn_solution \<and>
   soc_var burn_solution ! 75 =
     soc_var burn_solution ! 74 + (0 + 335 / 6) * 0.95 - (3553 / 120) / 0.95 \<and>
   sane_config v2_OptimizationConfig \<and>
   snd (charge_step v2_OptimizationConfig 2752 (v2_row_of v2_OptimizationConfig 0 500 50 50 600)) =
     2752 + (Charge_PV_kWh (fst (charge_step v2_OptimizationConfig 2752
                                 (v2_row_of v2_OptimizationConfig 0 500 50 50 600)))
             + Charge_Grid_kWh (fst (charge_step v2_OptimizationConfig 2752
                                   (v2_row_of v2_OptimizationConfig 0 500 50 50 600))))
            * CHARGE_EFFICIENCY v2_OptimizationConfig"
proof -
  have vs: "sane_config v2_OptimizationConfig \<and> (0::real) \<le> 2752"
    by (simp add: sane_config_def v2_OptimizationConfig_def)
  from soc_recurrence [of _ _ _ _ _ _ v2_OptimizationConfig 2752
      "v2_row_of v2_OptimizationConfig 0 500 50 50 600"] vs
  have vw: "snd (charge_step v2_OptimizationConfig 2752
                  (v2_row_of v2_OptimizationConfig 0 500 50 50 600)) =
     2752 + (Charge_PV_kWh (fst (charge_step v2_OptimizationConfig 2752
                                 (v2_row_of v2_OptimizationConfig 0 500 50 50 600)))
             + Charge_Grid_kWh (fst (charge_step v2_OptimizationConfig 2752
                                   (v2_row_of v2_OptimizationConfig 0 500 50 50 600))))
            * CHARGE_EFFICIENCY v2_OptimizationConfig"
    by blast
  have lf: "lp_feasible lp_OptimizationConfig negative_price_night burn_solution"
    by (rule burn_feasible)
  have ll: "75 < length negative_price_night" by (simp add: night_length)
  from soc_recurrence [of _ _ _ lp_OptimizationConfig negative_price_night burn_solution] lf
  have "\<forall>t<length negative_price_night.
         (0 # soc_var burn_solution) ! (t + 1) =
           (0 # soc_var burn_solution) ! t
             + (charge_pv burn_solution ! t + charge_grid burn_solution ! t)
                 * CHARGE_EFFICIENCY lp_OptimizationConfig
             - discharge burn_solution ! t / DISCHARGE_EFFICIENCY lp_OptimizationConfig"
    by blast
  from this [rule_format, OF ll]
  have lw: "soc_var burn_solution ! 75 =
     soc_var burn_solution ! 74 + (0 + 335 / 6) * 0.95 - (3553 / 120) / 0.95"
    by (simp add: burn_nth lp_OptimizationConfig_def)
  have f: "gurobi_feasible default_optimizer two_periods two_periods_solution"
    by (rule two_periods_feasible)
  have c: "nonzero_divisors default_optimizer"
    by (simp add: nonzero_divisors_def eval_config)
  have l: "(1::nat) < length two_periods" by (simp add: two_periods_eq)
  have v: "P_charge_X two_periods_solution ! 1 = 0" "P_discharge_X two_periods_solution ! 1 = 250"
    "P_charge (optimize_greedy default_optimizer two_periods ! 1) = 0"
    "P_discharge (optimize_greedy default_optimizer two_periods ! 1) = 250"
    by (simp_all add: two_periods_solution_def two_periods_greedy)
  have w: "dt default_optimizer = 5 / 60" "eta_c default_optimizer = 0.95"
    "eta_d default_optimizer = 0.95" "E_capacity default_optimizer = 1000"
    "initial_soc default_optimizer = 1 / 2"
    by (simp_all add: eval_config)
  from soc_recurrence [of default_optimizer two_periods two_periods_solution] f c
  have g1: "SOC_X two_periods_solution ! 0 = initial_soc default_optimizer * E_capacity default_optimizer"
    and g2: "\<forall>t<length two_periods. SOC_X two_periods_solution ! (t + 1) =
           SOC_X two_periods_solution ! t + P_charge_X two_periods_solution ! t * dt default_optimizer * eta_c default_optimizer
             - P_discharge_X two_periods_solution ! t * dt default_optimizer / eta_d default_optimizer"
    and g3: "soc_values default_optimizer two_periods ! 0 = initial_soc default_optimizer * E_capacity default_optimizer"
    and g4: "\<forall>t<length two_periods.
         soc_values default_optimizer two_periods ! (t + 1) =
           clip (soc_values default_optimizer two_periods ! t
                 + P_charge (optimize_greedy default_optimizer two_periods ! t) * dt default_optimizer * eta_c default_optimizer
                 - P_discharge (optimize_greedy default_optimizer two_periods ! t) * dt default_optimizer / eta_d default_optimizer)
             0 (E_capacity default_optimizer)"
    by blast+
  from g1 g2 [rule_format, OF l] g3 g4 [rule_format, OF l] f c
  have "gurobi_feasible default_optimizer two_periods two_periods_solution \<and>
   nonzero_divisors default_optimizer \<and>
   SOC_X two_periods_solution ! 0 = 500 \<and>
   SOC_X two_periods_solution ! 2 =
     SOC_X two_periods_solution ! 1 + 0 * (5 / 60) * 0.95 - 250 * (5 / 60) / 0.95 \<and>
   soc_values default_optimizer two_periods ! 0 = 500 \<and>
   soc_values default_optimizer two_periods ! 2 =
     clip (soc_values default_optimizer two_periods ! 1 + 0 * (5 / 60) * 0.95
           - 250 * (5 / 60) / 0.95) 0 1000"
    by (simp only: v w one_add_one) simp
  with lf lw vs vw show ?thesis by blast
qed

section \<open>State of charge within the capacity\<close>

text \<open>
  Claim C3. In every schedule the state of charge lies between zero and the battery
  capacity: for the exact scheduler at every period boundary of a feasible assignment; for the
  greedy scheduler in every row it writes, the capacity being non-negative; for the
  day-partitioned scheduler in every row of the run, under sane parameters and generated
  energies that are not negative, in whatever order its sort leaves periods of equal price.
\<close>

theorem soc_within_bounds:
  "(gurobi_feasible cfg data x \<longrightarrow>
      (\<forall>t\<le>length data. 0 \<le> SOC_X x ! t \<and> SOC_X x ! t \<le> E_capacity cfg)) \<and>
   (nonzero_divisors cfg \<and> 0 \<le> E_capacity cfg \<longrightarrow>
      (\<forall>r\<in>set (optimize_greedy cfg data). 0 \<le> SOC r \<and> SOC r \<le> E_capacity cfg)) \<and>
   (sane_config vcfg \<and> sorts_by_key srt \<and>
    (\<forall>day\<in>set days. \<forall>row\<in>set day. 0 \<le> PV_Energy_kWh row) \<longrightarrow>
      (\<forall>r\<in>set (run_v2 srt vcfg days). 0 \<le> SOC_kWh r \<and> SOC_kWh r \<le> BATTERY_CAPACITY vcfg))"
proof (intro conjI impI)
  assume "sane_config vcfg \<and> sorts_by_key srt \<and>
    (\<forall>day\<in>set days. \<forall>row\<in>set day. 0 \<le> PV_Energy_kWh row)"
  then show "\<forall>r\<in>set (run_v2 srt vcfg days). 0 \<le> SOC_kWh r \<and> SOC_kWh r \<le> BATTERY_CAPACITY vcfg"
    using run_v2_bounds by blast
next
  assume "gurobi_feasible cfg data x"
  then have "\<forall>t<length data + 1. 0 \<le> SOC_X x ! t \<and> SOC_X x ! t \<le> E_capacity cfg"
    by (simp add: gurobi_feasible_def variable_bounds_def)
  then show "\<forall>t\<le>length data. 0 \<le> SOC_X x ! t \<and> SOC_X x ! t \<le> E_capacity cfg"
    by (simp add: less_Suc_eq_le)
next
  assume "nonzero_divisors cfg \<and> 0 \<le> E_capacity cfg"
  then show "\<forall>r\<in>set (optimize_greedy cfg data). 0 \<le> SOC r \<and> SOC r \<le> E_capacity cfg"
    unfolding optimize_greedy_def using greedy_loop_SOC_bounds by blast
qed

theorem soc_within_bounds_witness:
  "gurobi_feasible default_optimizer two_periods two_periods_solution \<and>
   nonzero_divisors default_optimizer \<and> 0 \<le> E_capacity default_optimizer \<and>
   0 \<le> SOC_X two_periods_solution ! 2 \<and>
   SOC_X two_periods_solution ! 2 \<le> E_capacity default_optimizer \<and>
   0 \<le> SOC (optimize_greedy default_optimizer two_periods ! 1) \<and>
   SOC (optimize_greedy default_optimizer two_periods ! 1) \<le> E_capacity default_optimizer \<and>
   sane_config v2_OptimizationConfig \<and> sorts_by_key sort_key \<and>
   0 \<le> PV_Energy_kWh (sunny_then_dark ! 0 ! 0) \<and>
   0 \<le> PV_Energy_kWh (sunny_then_dark ! 0 ! 1) \<and>
   0 \<le> PV_Energy_kWh (sunny_then_dark ! 1 ! 0) \<and>
   0 \<le> SOC_kWh (run_v2 sort_key v2_OptimizationConfig sunny_then_dark ! 1) \<and>
   SOC_kWh (run_v2 sort_key v2_OptimizationConfig sunny_then_dark ! 1)
     \<le> BATTERY_CAPACITY v2_OptimizationConfig"
proof -
  have s: "sane_config v2_OptimizationConfig \<and> sorts_by_key sort_key \<and>
      (\<forall>day\<in>set sunny_then_dark. \<forall>row\<in>set day. 0 \<le> PV_Energy_kWh row)"
    by (simp add: sane_config_def v2_OptimizationConfig_def sunny_then_dark_def v2_row_of_def
        sort_key_sorts_by_key)
  have "1 < length (run_v2 sort_key v2_OptimizationConfig sunny_then_dark)"
    unfolding run_v2_def length_run_days by (simp add: sunny_then_dark_def)
  then have n: "run_v2 sort_key v2_OptimizationConfig sunny_then_dark ! 1
      \<in> set (run_v2 sort_key v2_OptimizationConfig sunny_then_dark)"
    by (rule nth_mem)
  have f: "gurobi_feasible default_optimizer two_periods two_periods_solution"
    by (rule two_periods_feasible)
  have c: "nonzero_divisors default_optimizer \<and> 0 \<le> E_capacity default_optimizer"
    by (simp add: nonzero_divisors_def eval_config)
  have m: "optimize_greedy default_optimizer two_periods ! 1
             \<in> set (optimize_greedy default_optimizer two_periods)"
    by (simp add: two_periods_greedy)
  have l: "2 \<le> length two_periods" by (simp add: two_periods_eq)
  have p: "0 \<le> PV_Energy_kWh (sunny_then_dark ! 0 ! 0)"
    "0 \<le> PV_Energy_kWh (sunny_then_dark ! 0 ! 1)"
    "0 \<le> PV_Energy_kWh (sunny_then_dark ! 1 ! 0)"
    by (simp_all add: sunny_then_dark_def v2_row_of_def)
  from soc_within_bounds
         [of default_optimizer two_periods two_periods_solution v2_OptimizationConfig
           sort_key sunny_then_dark]
       f c m l s n p
  show ?thesis by blast
qed

section \<open>No simultaneous charge and discharge\<close>

text \<open>
  Claim C4, as stated, fails for the linear program, which has no indicator variables and no
  constraint that keeps charge and discharge apart. Over 76 periods at a price of \<open>-5\<close> the
  assignment below is optimal, and in the last period it charges from the grid and discharges
  at once: buying pays at a negative price, and the full battery is emptied to make room.
\<close>

theorem linear_program_optimum_charges_and_discharges:
  "lp_optimal lp_OptimizationConfig negative_price_night burn_solution \<and>
   0 < charge_grid burn_solution ! 75 \<and> 0 < discharge burn_solution ! 75"
  using burn_optimal by (simp add: burn_nth)

text \<open>
  Claim C4, amended. In every period of a schedule of the mixed-integer program or of the
  greedy scheduler, a positive charging power implies a zero discharging power and
  conversely. For the mixed-integer program this follows from the variable bounds and the
  three constraints with the constant \<open>big_M = max P_charge_max P_discharge_max\<close> alone; for the
  greedy scheduler it holds for every row.
\<close>

theorem mutual_exclusion:
  "(variable_bounds cfg (length data) x \<and> no_simul_charge_discharge cfg (length data) x \<longrightarrow>
      (\<forall>t<length data.
         (0 < P_charge_X x ! t \<longrightarrow> P_discharge_X x ! t = 0) \<and>
         (0 < P_discharge_X x ! t \<longrightarrow> P_charge_X x ! t = 0))) \<and>
   (nonzero_divisors cfg \<longrightarrow>
      (\<forall>r\<in>set (optimize_greedy cfg data).
         (0 < P_charge r \<longrightarrow> P_discharge r = 0) \<and>
         (0 < P_discharge r \<longrightarrow> P_charge r = 0)))"
proof (intro conjI impI allI ballI)
  fix t
  assume h: "variable_bounds cfg (length data) x \<and> no_simul_charge_discharge cfg (length data) x"
    and t: "t < length data"
  from h t have b: "0 \<le> P_charge_X x ! t" "0 \<le> P_discharge_X x ! t"
    "is_charging_X x ! t = 0 \<or> is_charging_X x ! t = 1"
    "is_discharging_X x ! t = 0 \<or> is_discharging_X x ! t = 1"
    by (simp_all add: variable_bounds_def)
  from h t have c: "is_charging_X x ! t + is_discharging_X x ! t \<le> 1"
    "P_charge_X x ! t \<le> big_M cfg * real_of_int (is_charging_X x ! t)"
    "P_discharge_X x ! t \<le> big_M cfg * real_of_int (is_discharging_X x ! t)"
    by (simp_all add: no_simul_charge_discharge_def)
  have e: "P_charge_X x ! t = 0 \<or> P_discharge_X x ! t = 0"
    by (rule big_M_exclusive [OF b c])
  { assume "0 < P_charge_X x ! t" with e show "P_discharge_X x ! t = 0" by auto }
  { assume "0 < P_discharge_X x ! t" with e show "P_charge_X x ! t = 0" by auto }
next
  fix r
  assume r: "r \<in> set (optimize_greedy cfg data)"
  then have e: "P_charge r = 0 \<or> P_discharge r = 0"
    unfolding optimize_greedy_def by (rule greedy_loop_exclusive)
  { assume "0 < P_charge r" with e show "P_discharge r = 0" by auto }
  { assume "0 < P_discharge r" with e show "P_charge r = 0" by auto }
qed

theorem mutual_exclusion_witness:
  "variable_bounds default_optimizer (length two_periods) two_periods_solution \<and>
   no_simul_charge_discharge default_optimizer (length two_periods) two_periods_solution \<and>
   0 < P_charge_X two_periods_solution ! 0 \<and> P_discharge_X two_periods_solution ! 0 = 0 \<and>
   0 < P_discharge_X two_periods_solution ! 1 \<and> P_charge_X two_periods_solution ! 1 = 0 \<and>
   nonzero_divisors default_optimizer \<and>
   0 < P_charge (optimize_greedy default_optimizer two_periods ! 0) \<and>
   P_discharge (optimize_greedy default_optimizer two_periods ! 0) = 0 \<and>
   0 < P_discharge (optimize_greedy default_optimizer two_periods ! 1) \<and>
   P_charge (optimize_greedy default_optimizer two_periods ! 1) = 0"
proof -
  have f: "variable_bounds default_optimizer (length two_periods) two_periods_solution \<and>
      no_simul_charge_discharge default_optimizer (length two_periods) two_periods_solution"
    using two_periods_feasible by (simp add: gurobi_feasible_def)
  have c: "nonzero_divisors default_optimizer"
    by (simp add: nonzero_divisors_def eval_config)
  have p: "0 < P_charge_X two_periods_solution ! 0" "0 < P_discharge_X two_periods_solution ! 1"
    "0 < P_charge (optimize_greedy default_optimizer two_periods ! 0)"
    "0 < P_discharge (optimize_greedy default_optimizer two_periods ! 1)"
    by (simp_all add: two_periods_solution_def two_periods_greedy)
  have m: "optimize_greedy default_optimizer two_periods ! 0
             \<in> set (optimize_greedy default_optimizer two_periods)"
    "optimize_greedy default_optimizer two_periods ! 1
             \<in> set (optimize_greedy default_optimizer two_periods)"
    by (simp_all add: two_periods_greedy)
  have l: "0 < length two_periods" "1 < length two_periods" by (simp_all add: two_periods_eq)
  from mutual_exclusion [of default_optimizer two_periods two_periods_solution] f c p m l
  show ?thesis by blast
qed

section \<open>The export price floor\<close>

text \<open>
  Claim C5. In a period whose price is strictly below the minimum export price, the grid
  export is zero. The run below is a period of the greedy scheduler with price \<open>-1\<close>, below
  the floor \<open>-0.01\<close>, in which the whole generation of 3.79 kW is exported.
\<close>

theorem greedy_exports_below_price_floor:
  "rrp (negative_price_period ! 0) = - 1 \<and>
   min_export_price default_optimizer = - 0.01 \<and>
   rrp (negative_price_period ! 0) < min_export_price default_optimizer \<and>
   P_grid_export (optimize_greedy default_optimizer negative_price_period ! 0) = 3.79"
  by (simp add: negative_price_period_greedy)
     (simp add: negative_price_period_def min_export_price_def eval_config eval_data)

section \<open>The ramp limit\<close>

text \<open>
  Claim C6, as stated, fails for the greedy scheduler: after the clamp to the ramp limit the
  export is reduced to the available power, and the step down may then exceed the limit. In
  the run below the export falls from 3 kW to 0 with a limit of 1.5 kW.
\<close>

theorem greedy_ramp_bound_counterexample:
  "max_ramp slow_ramp_optimizer = 1.5 \<and>
   P_grid_export (optimize_greedy slow_ramp_optimizer three_periods_dark ! 1) = 3 \<and>
   P_grid_export (optimize_greedy slow_ramp_optimizer three_periods_dark ! 2) = 0 \<and>
   max_ramp slow_ramp_optimizer
     < \<bar>P_grid_export (optimize_greedy slow_ramp_optimizer three_periods_dark ! 2)
        - P_grid_export (optimize_greedy slow_ramp_optimizer three_periods_dark ! 1)\<bar>"
  by (simp add: three_periods_dark_greedy) (simp add: slow_ramp_optimizer_def eval_config)

text \<open>
  Claim C6, amended. In a feasible assignment of the exact model the export of consecutive
  periods differs by at most the ramp limit. In a schedule of the greedy scheduler (the ramp
  limit being non-negative) the export never rises by more than the ramp limit from one period
  to the next; it falls by more than the ramp limit only when it has been reduced to the power
  available in the later period, generation plus discharge, and that power is below the
  previous export less the ramp limit.
\<close>

theorem ramp_bound_except_step_down_to_available_power:
  "(gurobi_feasible cfg data x \<longrightarrow>
      (\<forall>t<length data. 1 \<le> t \<longrightarrow>
         \<bar>P_grid_export_X x ! t - P_grid_export_X x ! (t - 1)\<bar> \<le> max_ramp cfg)) \<and>
   (nonzero_divisors cfg \<and> 0 \<le> max_ramp cfg \<longrightarrow>
      (\<forall>t<length data. 1 \<le> t \<longrightarrow>
         P_grid_export (optimize_greedy cfg data ! t)
           - P_grid_export (optimize_greedy cfg data ! (t - 1)) \<le> max_ramp cfg \<and>
         (P_grid_export (optimize_greedy cfg data ! (t - 1))
            - P_grid_export (optimize_greedy cfg data ! t) \<le> max_ramp cfg \<or>
          (P_grid_export (optimize_greedy cfg data ! t) =
             pv_power (optimize_greedy cfg data ! t) + P_discharge (optimize_greedy cfg data ! t) \<and>
           pv_power (optimize_greedy cfg data ! t) + P_discharge (optimize_greedy cfg data ! t)
             < P_grid_export (optimize_greedy cfg data ! (t - 1)) - max_ramp cfg))))"
proof (intro conjI impI allI)
  fix t
  assume "gurobi_feasible cfg data x" and "t < length data" and "1 \<le> t"
  then have "P_grid_export_X x ! t - P_grid_export_X x ! (t - 1) \<le> max_ramp cfg \<and>
        P_grid_export_X x ! (t - 1) - P_grid_export_X x ! t \<le> max_ramp cfg"
    by (simp add: gurobi_feasible_def ramp_constr_def)
  then show "\<bar>P_grid_export_X x ! t - P_grid_export_X x ! (t - 1)\<bar> \<le> max_ramp cfg"
    by linarith
next
  fix t
  assume c: "nonzero_divisors cfg \<and> 0 \<le> max_ramp cfg" and t: "t < length data" and p: "1 \<le> t"
  from c have r: "0 \<le> max_ramp cfg" by simp
  from p obtain k where k: "t = Suc k" by (cases t) auto
  with t have "k < length data" by simp
  then have e: "(0 # map P_grid_export (optimize_greedy cfg data)) ! t =
      P_grid_export (optimize_greedy cfg data ! (t - 1))"
    using k by (simp add: optimize_greedy_def)
  from greedy_loop_ramp_up_down [OF r t, of "quantile (map rrp data) 0.25"
      "quantile (map rrp data) 0.75" "initial_soc cfg * E_capacity cfg" 0]
  have g: "P_grid_export (optimize_greedy cfg data ! t)
      - (0 # map P_grid_export (optimize_greedy cfg data)) ! t \<le> max_ramp cfg \<and>
    ((0 # map P_grid_export (optimize_greedy cfg data)) ! t
       - P_grid_export (optimize_greedy cfg data ! t) \<le> max_ramp cfg \<or>
     (P_grid_export (optimize_greedy cfg data ! t) =
        pv_power (optimize_greedy cfg data ! t) + P_discharge (optimize_greedy cfg data ! t) \<and>
      pv_power (optimize_greedy cfg data ! t) + P_discharge (optimize_greedy cfg data ! t)
      < (0 # map P_grid_export (optimize_greedy cfg data)) ! t - max_ramp cfg))"
    by (simp only: optimize_greedy_def)
  from g show "P_grid_export (optimize_greedy cfg data ! t)
           - P_grid_export (optimize_greedy cfg data ! (t - 1)) \<le> max_ramp cfg"
    by (simp only: e)
  from g show "P_grid_export (optimize_greedy cfg data ! (t - 1))
            - P_grid_export (optimize_greedy cfg data ! t) \<le> max_ramp cfg \<or>
          (P_grid_export (optimize_greedy cfg data ! t) =
             pv_power (optimize_greedy cfg data ! t) + P_discharge (optimize_greedy cfg data ! t) \<and>
           pv_power (optimize_greedy cfg data ! t) + P_discharge (optimize_greedy cfg data ! t)
             < P_grid_export (optimize_greedy cfg data ! (t - 1)) - max_ramp cfg)"
    by (simp only: e)
qed

theorem ramp_bound_except_step_down_to_available_power_witness:
  "gurobi_feasible default_optimizer two_periods two_periods_solution \<and>
   \<bar>P_grid_export_X two_periods_solution ! 1 - P_grid_export_X two_periods_solution ! 0\<bar>
      \<le> max_ramp default_optimizer \<and>
   nonzero_divisors slow_ramp_optimizer \<and> 0 \<le> max_ramp slow_ramp_optimizer \<and>
   P_grid_export (optimize_greedy slow_ramp_optimizer three_periods_dark ! 1)
     - P_grid_export (optimize_greedy slow_ramp_optimizer three_periods_dark ! 0)
     \<le> max_ramp slow_ramp_optimizer \<and>
   P_grid_export (optimize_greedy slow_ramp_optimizer three_periods_dark ! 2)
     - P_grid_export (optimize_greedy slow_ramp_optimizer three_periods_dark ! 1)
     \<le> max_ramp slow_ramp_optimizer \<and>
   P_grid_export (optimize_greedy slow_ramp_optimizer three_periods_dark ! 2) =
     pv_power (optimize_greedy slow_ramp_optimizer three_periods_dark ! 2)
     + P_discharge (optimize_greedy slow_ramp_optimizer three_periods_dark ! 2) \<and>
   pv_power (optimize_greedy slow_ramp_optimizer three_periods_dark ! 2)
     + P_discharge (optimize_greedy slow_ramp_optimizer three_periods_dark ! 2)
     < P_grid_export (optimize_greedy slow_ramp_optimizer three_periods_dark ! 1)
       - max_ramp slow_ramp_optimizer"
proof -
  have f: "gurobi_feasible default_optimizer two_periods two_periods_solution"
    by (rule two_periods_feasible)
  have c: "nonzero_divisors slow_ramp_optimizer \<and> 0 \<le> max_ramp slow_ramp_optimizer"
    by (simp add: nonzero_divisors_def slow_ramp_optimizer_def eval_config)
  have l: "1 < length two_periods" "(1::nat) \<le> 1" "2 < length three_periods_dark" "(1::nat) \<le> 2"
    "1 < length three_periods_dark"
    by (simp_all add: two_periods_eq three_periods_dark_def eval_data)
  from ramp_bound_except_step_down_to_available_power
         [of default_optimizer two_periods two_periods_solution] f l(1,2)
  have a: "\<bar>P_grid_export_X two_periods_solution ! 1
            - P_grid_export_X two_periods_solution ! (1 - 1)\<bar> \<le> max_ramp default_optimizer"
    by blast
  from ramp_bound_except_step_down_to_available_power
         [of slow_ramp_optimizer three_periods_dark] c l(5,2)
  have b1: "P_grid_export (optimize_greedy slow_ramp_optimizer three_periods_dark ! 1)
     - P_grid_export (optimize_greedy slow_ramp_optimizer three_periods_dark ! (1 - 1))
     \<le> max_ramp slow_ramp_optimizer"
    by blast
  from ramp_bound_except_step_down_to_available_power
         [of slow_ramp_optimizer three_periods_dark] c l(3,4)
  have b2: "P_grid_export (optimize_greedy slow_ramp_optimizer three_periods_dark ! 2)
     - P_grid_export (optimize_greedy slow_ramp_optimizer three_periods_dark ! (2 - 1))
     \<le> max_ramp slow_ramp_optimizer"
    by blast
  have v: "P_grid_export (optimize_greedy slow_ramp_optimizer three_periods_dark ! 2) =
     pv_power (optimize_greedy slow_ramp_optimizer three_periods_dark ! 2)
     + P_discharge (optimize_greedy slow_ramp_optimizer three_periods_dark ! 2)"
    "pv_power (optimize_greedy slow_ramp_optimizer three_periods_dark ! 2)
     + P_discharge (optimize_greedy slow_ramp_optimizer three_periods_dark ! 2)
     < P_grid_export (optimize_greedy slow_ramp_optimizer three_periods_dark ! 1)
       - max_ramp slow_ramp_optimizer"
    by (simp_all add: three_periods_dark_greedy) (simp add: slow_ramp_optimizer_def eval_config)
  from a b1 b2 f c v show ?thesis by simp
qed

section \<open>Exact against greedy revenue\<close>

text \<open>
  Claim C7, as stated, fails. With a full battery, a ramp limit of 1.5 kW and one period of
  price \<open>-0.005\<close> (above the export floor), the exact model has to export the whole generation
  of 3.79 kW at the negative price, since it has no curtailment and the battery cannot take
  it; the assignment shown is optimal, so the solver can return it at the default relative gap
  of 0.01. The greedy scheduler clamps its export to 1.5 kW, leaves the rest of the generation
  unused, and earns more, by more than the gap.
\<close>

theorem greedy_beats_exact_counterexample:
  "gurobi_optimal full_battery_slow_ramp_optimizer mild_negative_period 0.01 export_all_solution \<and>
   total_net_revenue
     (extract_revenue full_battery_slow_ramp_optimizer mild_negative_period export_all_solution)
   + 0.01 * \<bar>total_net_revenue
       (extract_revenue full_battery_slow_ramp_optimizer mild_negative_period export_all_solution)\<bar>
   < total_net_revenue
       (calculate_revenue full_battery_slow_ramp_optimizer
          (optimize_greedy full_battery_slow_ramp_optimizer mild_negative_period))"
proof
  show "gurobi_optimal full_battery_slow_ramp_optimizer mild_negative_period 0.01 export_all_solution"
    by (rule full_battery_optimal) (simp_all add: full_battery_slow_ramp_optimizer_def)
  show "total_net_revenue
     (extract_revenue full_battery_slow_ramp_optimizer mild_negative_period export_all_solution)
   + 0.01 * \<bar>total_net_revenue
       (extract_revenue full_battery_slow_ramp_optimizer mild_negative_period export_all_solution)\<bar>
   < total_net_revenue
       (calculate_revenue full_battery_slow_ramp_optimizer
          (optimize_greedy full_battery_slow_ramp_optimizer mild_negative_period))"
    by (simp add: mild_negative_greedy_slow)
       (simp add: total_net_revenue_def extract_revenue_def extract_results_def
          calculate_revenue_def calculate_revenue_row_def mild_negative_period_eq
          export_all_solution_def full_battery_slow_ramp_optimizer_def optimizer_init_def
          period.extend_def period.defs Let_def)
qed

text \<open>
  Claim C7, amended. Take a configuration with a positive period length and positive
  efficiencies, a capacity and power limits that are not negative and an initial state
  between empty and full, and a horizon in which every period has a generation that is not
  negative, a ramp limit of at least the generation plus the largest discharge power, and a
  price above the export floor unless it has no generation. Then the greedy schedule is a
  feasible assignment of the exact model, and when the exact solver reports optimality at the
  relative gap \<open>mip_gap\<close> its total net revenue is at least that of the greedy schedule less
  \<open>mip_gap\<close> times its own absolute value; at a gap of zero it is at least that of the greedy
  schedule. The code sets the gap to 0.01 unless told otherwise.
\<close>

theorem exact_not_below_greedy_within_gap:
  assumes "inputs_fit_exact_model cfg data"
    and "gurobi_optimal cfg data mip_gap x"
  shows "gurobi_feasible cfg data (greedy_as_solution cfg data) \<and>
    total_net_revenue (calculate_revenue cfg (optimize_greedy cfg data))
      \<le> total_net_revenue (extract_revenue cfg data x)
         + mip_gap * \<bar>total_net_revenue (extract_revenue cfg data x)\<bar>"
proof
  from assms(1) show f: "gurobi_feasible cfg data (greedy_as_solution cfg data)"
    by (rule greedy_schedule_feasible)
  from gurobi_optimal_bound [OF assms(2) f]
  show "total_net_revenue (calculate_revenue cfg (optimize_greedy cfg data))
      \<le> total_net_revenue (extract_revenue cfg data x)
         + mip_gap * \<bar>total_net_revenue (extract_revenue cfg data x)\<bar>"
    by (simp only: greedy_objective extract_revenue_total)
qed

theorem exact_not_below_greedy_within_gap_witness:
  "inputs_fit_exact_model default_optimizer one_dear_period \<and>
   gurobi_optimal default_optimizer one_dear_period 0.01 discharge_all_solution \<and>
   gurobi_feasible default_optimizer one_dear_period
     (greedy_as_solution default_optimizer one_dear_period) \<and>
   total_net_revenue
     (calculate_revenue default_optimizer (optimize_greedy default_optimizer one_dear_period))
   \<le> total_net_revenue (extract_revenue default_optimizer one_dear_period discharge_all_solution)
      + 0.01 * \<bar>total_net_revenue
                 (extract_revenue default_optimizer one_dear_period discharge_all_solution)\<bar> \<and>
   total_net_revenue
     (calculate_revenue default_optimizer (optimize_greedy default_optimizer one_dear_period))
   < total_net_revenue (extract_revenue default_optimizer one_dear_period discharge_all_solution)"
proof -
  have o: "gurobi_optimal default_optimizer one_dear_period 0.01 discharge_all_solution"
    by (rule discharge_all_optimal) simp
  have s: "total_net_revenue
     (calculate_revenue default_optimizer (optimize_greedy default_optimizer one_dear_period))
   < total_net_revenue (extract_revenue default_optimizer one_dear_period discharge_all_solution)"
    by (simp add: one_dear_period_greedy)
       (simp add: total_net_revenue_def extract_revenue_def extract_results_def
          calculate_revenue_def calculate_revenue_row_def one_dear_period_eq
          discharge_all_solution_def eval_config period.extend_def period.defs Let_def)
  from exact_not_below_greedy_within_gap [OF one_dear_period_fits o] one_dear_period_fits o s
  show ?thesis by blast
qed


section \<open>The incentive term of the reporters\<close>

text \<open>
  Claim C8. Every reporter computes the incentive revenue of a period as generation power times
  period length times incentive rate. \<^verbatim>\<open>DaytimeStorageOptimizer._calculate_revenue\<close> takes
  export plus curtailed power instead: for the charging row below its incentive revenue is zero
  while the generation is 3.79 kW.
\<close>

theorem daytime_incentive_not_on_generation:
  "lgc_revenue (daytime_calculate_revenue_row default_optimizer daytime_charging_row) = 0 \<and>
   pv_power daytime_charging_row * dt default_optimizer * lgc_price default_optimizer
     = 3.79 * (5 / 60) * 0.01"
  by (simp add: daytime_calculate_revenue_row_def daytime_charging_row_def eval_config Let_def)

section \<open>Negative irradiance\<close>




section \<open>The exact model has no curtailment\<close>

text \<open>
  Claim C10. The model of \<^verbatim>\<open>build_and_solve\<close> has no curtailment variable: every feasible
  assignment balances generation, discharge and import against charge and export exactly.
  Hence in a period whose price is below the export floor and whose generation is positive,
  the export is zero, the battery does not discharge, and the charging power equals the
  generation plus the grid import.
\<close>

theorem exact_model_has_no_curtailment:
  assumes "gurobi_feasible cfg data x" and "t < length data"
  shows "pv_power (data ! t) + P_discharge_X x ! t + P_grid_import_X x ! t =
           P_charge_X x ! t + P_grid_export_X x ! t \<and>
         (rrp (data ! t) < min_export_price cfg \<and> 0 < pv_power (data ! t) \<longrightarrow>
            P_grid_export_X x ! t = 0 \<and> P_discharge_X x ! t = 0 \<and>
            P_charge_X x ! t = pv_power (data ! t) + P_grid_import_X x ! t)"
proof -
  from assms have bal: "pv_power (data ! t) + P_discharge_X x ! t + P_grid_import_X x ! t =
      P_charge_X x ! t + P_grid_export_X x ! t"
    by (simp add: gurobi_feasible_def power_balance_def)
  from assms have floor: "rrp (data ! t) < min_export_price cfg \<Longrightarrow> P_grid_export_X x ! t = 0"
    by (simp add: gurobi_feasible_def min_price_constr_def)
  from assms have nn: "0 \<le> P_discharge_X x ! t" "0 \<le> P_grid_import_X x ! t"
    by (simp_all add: gurobi_feasible_def variable_bounds_def)
  have excl: "P_charge_X x ! t = 0 \<or> P_discharge_X x ! t = 0"
    by (rule gurobi_exclusive [OF assms])
  show ?thesis
  proof (intro conjI impI)
    show "pv_power (data ! t) + P_discharge_X x ! t + P_grid_import_X x ! t =
      P_charge_X x ! t + P_grid_export_X x ! t" by (rule bal)
  next
    assume h: "rrp (data ! t) < min_export_price cfg \<and> 0 < pv_power (data ! t)"
    then show e: "P_grid_export_X x ! t = 0" using floor by simp
    from h bal e nn have "0 < P_charge_X x ! t" by linarith
    with excl show d: "P_discharge_X x ! t = 0" by auto
    from bal e d show "P_charge_X x ! t = pv_power (data ! t) + P_grid_import_X x ! t"
      by simp
  qed
qed

theorem exact_model_has_no_curtailment_witness:
  "gurobi_feasible default_optimizer two_periods two_periods_solution \<and>
   rrp (two_periods ! 0) < min_export_price default_optimizer \<and>
   0 < pv_power (two_periods ! 0) \<and>
   P_grid_export_X two_periods_solution ! 0 = 0 \<and>
   P_charge_X two_periods_solution ! 0 =
     pv_power (two_periods ! 0) + P_grid_import_X two_periods_solution ! 0"
  using exact_model_has_no_curtailment [OF two_periods_feasible, of 0] two_periods_feasible
  by (simp add: two_periods_eq min_export_price_def eval_config)

end
